theory Spec2Isabelle
  imports Main "HOL-Library.Sublist"
begin

section \<open>JavaScript strings\<close>

text \<open>
  A JavaScript string is a sequence of code units. The model uses \<^typ>\<open>string\<close> and
  therefore covers the code units below 256 (ASCII and Latin-1), which is where the brand
  token, the path separators, the white space the scripts meet and the copyright sign live.
  \<open>trim\<close> strips the white space and line terminators of that range; \<open>toLowerCase\<close> maps
  \<open>A\<close>-\<open>Z\<close> and the Latin-1 capitals to their small letters.
\<close>

definition isWhiteSpace :: "char \<Rightarrow> bool" where
  "isWhiteSpace c \<longleftrightarrow>
     c \<in> set [CHR 0x09, CHR 0x0A, CHR 0x0B, CHR 0x0C, CHR 0x0D, CHR '' '', CHR 0xA0]"

definition trim :: "string \<Rightarrow> string" where
  "trim s = rev (dropWhile isWhiteSpace (rev (dropWhile isWhiteSpace s)))"

definition isUpperCase :: "char \<Rightarrow> bool" where
  "isUpperCase c \<longleftrightarrow> (let n = (of_char c :: nat) in
     (65 \<le> n \<and> n \<le> 90) \<or> (192 \<le> n \<and> n \<le> 222 \<and> n \<noteq> 215))"

definition lowerChar :: "char \<Rightarrow> char" where
  "lowerChar c = (if isUpperCase c
     then Char (digit0 c) (digit1 c) (digit2 c) (digit3 c) (digit4 c) True (digit6 c) (digit7 c)
     else c)"

definition toLowerCase :: "string \<Rightarrow> string" where
  "toLowerCase s = map lowerChar s"

definition startsWith :: "string \<Rightarrow> string \<Rightarrow> bool" where
  "startsWith s p = prefix p s"

definition endsWith :: "string \<Rightarrow> string \<Rightarrow> bool" where
  "endsWith s p = suffix p s"

text \<open>\<open>s.includes(sub)\<close>: \<open>sub\<close> occurs in \<open>s\<close> at some position.\<close>

fun includes_str :: "string \<Rightarrow> string \<Rightarrow> bool" where
  "includes_str [] sub = (sub = [])"
| "includes_str (c # cs) sub = (prefix sub (c # cs) \<or> includes_str cs sub)"

text \<open>
  \<open>s.split(sep)\<close> for a separator that is not empty (the scripts split on the brand token
  only): the occurrences are taken from left to right and do not overlap.
\<close>

function split :: "string \<Rightarrow> string \<Rightarrow> string list" where
  "split sep s =
     (if sep \<noteq> [] \<and> prefix sep s then [] # split sep (drop (length sep) s)
      else (case s of
              [] \<Rightarrow> [[]]
            | c # cs \<Rightarrow> (case split sep cs of
                          [] \<Rightarrow> [[c]]
                        | part # parts \<Rightarrow> (c # part) # parts)))"
  by pat_completeness auto
termination
  by (relation "measure (\<lambda>(sep, s). length s)") (auto simp: prefix_def)

declare split.simps [simp del]

fun join :: "string \<Rightarrow> string list \<Rightarrow> string" where
  "join sep [] = []"
| "join sep [x] = x"
| "join sep (x # y # ys) = x @ sep @ join sep (y # ys)"


section \<open>Data model\<close>

text \<open>
  The content of an HTML file is taken as the tree its parser builds. \<open>new JSDOM(content)\<close>
  turns it into DOM nodes; every element object gets an identity of its own, so that a node
  list obtained from a query still denotes its elements after the tree has been mutated.
\<close>

datatype html = HText string | HElement string "(string \<times> string) list" "html list"

datatype node = TextNode string | Element nat string "(string \<times> string) list" "node list"

text \<open>One entry of \<open>languages.json\<close>, the locale registry.\<close>

record langObj =
  code :: string
  createnew :: bool

datatype exn = ProviderError | TypeError | FsError

text \<open>What the scripts print, line by line.\<close>

datatype log_entry =
    ErrorTranslatingText string string
  | ErrorTranslatingElement string string
  | ErrorProcessingFile string string
  | Translated string "string \<times> string \<times> string"
  | SkippingCreation string

text \<open>
  The state of a run: the module-level \<open>translationCache\<close>, the requests sent to the
  translation provider so far, the console, and the files written (output folder, locale
  and relative path, base name; then the serialized document).
\<close>

record state =
  cache :: "string \<rightharpoonup> string"
  calls :: "(string \<times> string) list"
  log :: "log_entry list"
  files :: "((string \<times> string \<times> string) \<times> html) list"

definition emptyState :: state where
  "emptyState = \<lparr>cache = Map.empty, calls = [], log = [], files = []\<rparr>"

text \<open>
  The translation provider (\<open>google-translate-api-x\<close>) is outside the repository. It is a
  parameter: given how many requests were sent before, the text and the target language it
  answers with a translation or fails. The request counter lets a provider fail once and
  succeed later.
\<close>

type_synonym provider = "nat \<Rightarrow> string \<Rightarrow> string \<Rightarrow> string option"

definition translate :: "provider \<Rightarrow> string \<Rightarrow> string \<Rightarrow> state \<Rightarrow> string option \<times> state" where
  "translate p text lang s =
     (p (length (calls s)) text lang, s\<lparr>calls := calls s @ [(text, lang)]\<rparr>)"


section \<open>translateText\<close>

definition brand :: string where
  "brand = ''evaluating.tools''"

definition cacheKey :: "string \<Rightarrow> string \<Rightarrow> string" where
  "cacheKey lang text = lang @ '':'' @ text"

text \<open>
  \<open>parts.map(...)\<close> of the brand branch: a request is sent for every part but the last,
  which is resolved as it is. All requests are sent before any answer is awaited.
\<close>

fun translateParts ::
  "provider \<Rightarrow> string \<Rightarrow> string list \<Rightarrow> state \<Rightarrow> string option list \<times> state" where
  "translateParts p lang [] s = ([], s)"
| "translateParts p lang [part] s = ([Some part], s)"
| "translateParts p lang (part # next # parts) s =
     (case translate p (trim part) lang s of
        (r, s1) \<Rightarrow> (case translateParts p lang (next # parts) s1 of
                      (rs, s2) \<Rightarrow> (r # rs, s2)))"

text \<open>\<open>Promise.all\<close>: rejected as soon as one of the promises is.\<close>

fun promiseAll :: "'a option list \<Rightarrow> 'a list option" where
  "promiseAll [] = Some []"
| "promiseAll (None # rs) = None"
| "promiseAll (Some r # rs) = (case promiseAll rs of None \<Rightarrow> None | Some xs \<Rightarrow> Some (r # xs))"

text \<open>
  The result is the value the promise of \<open>translateText\<close> settles with: \<open>Inr\<close> when it is
  fulfilled, \<open>Inl\<close> when it is rejected. The state is returned in both cases.
\<close>

definition translateText ::
  "provider \<Rightarrow> string \<Rightarrow> string \<Rightarrow> state \<Rightarrow> (exn + string) \<times> state" where
  "translateText p text lang s =
     (case cache s (cacheKey lang text) of
        Some v \<Rightarrow> (Inr v, s)
      | None \<Rightarrow>
          if includes_str (toLowerCase text) brand then
            (case translateParts p lang (split brand text) s of
               (rs, s1) \<Rightarrow>
                 (case promiseAll rs of
                    None \<Rightarrow> (Inl ProviderError, s1)
                  | Some translatedParts \<Rightarrow>
                      (Inr (join brand translatedParts),
                       s1\<lparr>cache := (cache s1)(cacheKey lang text \<mapsto> join brand translatedParts)\<rparr>)))
          else
            (case translate p (trim text) lang s of
               (Some r, s1) \<Rightarrow> (Inr r, s1\<lparr>cache := (cache s1)(cacheKey lang text \<mapsto> r)\<rparr>)
             | (None, s1) \<Rightarrow> (Inr text, s1\<lparr>log := log s1 @ [ErrorTranslatingText text lang]\<rparr>)))"

text \<open>Two providers to run the scripts with: one that always fails, one that always answers.\<close>

definition failingProvider :: provider where
  "failingProvider n text lang = None"

definition echoProvider :: provider where
  "echoProvider n text lang = Some (''['' @ lang @ '']'' @ text)"


section \<open>Canonical URLs\<close>

text \<open>\<open>replace(/\\/g, "/")\<close>, \<open>replace(/\/+$/, "")\<close> and \<open>replace(/^\.+/, "")\<close>.\<close>

definition normalizeSeparators :: "string \<Rightarrow> string" where
  "normalizeSeparators s = map (\<lambda>c. if c = CHR 0x5C then CHR ''/'' else c) s"

definition stripTrailingSlashes :: "string \<Rightarrow> string" where
  "stripTrailingSlashes s = rev (dropWhile (\<lambda>c. c = CHR ''/'') (rev s))"

definition stripLeadingDots :: "string \<Rightarrow> string" where
  "stripLeadingDots s = dropWhile (\<lambda>c. c = CHR ''.'') s"

text \<open>\<open>constructCanonicalUrl\<close> of \<open>index.js\<close>.\<close>

definition constructCanonicalUrl :: "string \<Rightarrow> string \<Rightarrow> string" where
  "constructCanonicalUrl relativePath lang =
     (let cleanPath = stripTrailingSlashes (normalizeSeparators relativePath);
          cleanPath' = (if cleanPath = ''.'' \<or> cleanPath = '''' then ''''
                        else if \<not> endsWith cleanPath ''.html'' then cleanPath @ ''/''
                        else cleanPath)
      in ''https://evaluating.tools/'' @ lang @ ''/'' @ cleanPath')"

text \<open>The canonical URL the second script computes in \<open>translateHTML\<close> (lines 112 to 118).\<close>

definition canonicalUrl_part000 :: "string \<Rightarrow> string \<Rightarrow> string" where
  "canonicalUrl_part000 relativePath lang =
     (let cleanRelativePath = stripLeadingDots (stripTrailingSlashes relativePath)
      in if cleanRelativePath = ''.'' \<or> cleanRelativePath = ''''
         then ''https://evaluating.tools/'' @ lang @ ''/''
         else ''https://evaluating.tools/'' @ lang @ ''/'' @ cleanRelativePath @ ''/'')"


section \<open>Rewriting the link of an anchor\<close>

text \<open>
  \<open>s.replace(pattern, replacement)\<close> with a string pattern replaces the first occurrence
  only, and reads the replacement as a template: \<open>$$\<close> stands for a dollar sign, \<open>$&\<close> for
  the match, \<open>$`\<close> and \<open>$'\<close> for what precedes and follows it. A string pattern has no
  capture groups, so a dollar sign before anything else stays as it is.
\<close>

fun getSubstitution :: "string \<Rightarrow> string \<Rightarrow> string \<Rightarrow> string \<Rightarrow> string" where
  "getSubstitution matched pre post [] = []"
| "getSubstitution matched pre post [c] = [c]"
| "getSubstitution matched pre post (c # d # cs) =
     (if c = CHR ''$'' \<and> d = CHR ''$'' then CHR ''$'' # getSubstitution matched pre post cs
      else if c = CHR ''$'' \<and> d = CHR ''&'' then matched @ getSubstitution matched pre post cs
      else if c = CHR ''$'' \<and> d = CHR 0x60 then pre @ getSubstitution matched pre post cs
      else if c = CHR ''$'' \<and> d = CHR 0x27 then post @ getSubstitution matched pre post cs
      else c # getSubstitution matched pre post (d # cs))"

text \<open>The text before and after the first occurrence of a pattern, if there is one.\<close>

fun firstOccurrence :: "string \<Rightarrow> string \<Rightarrow> (string \<times> string) option" where
  "firstOccurrence pat [] = (if pat = [] then Some ([], []) else None)"
| "firstOccurrence pat (c # cs) =
     (if prefix pat (c # cs) then Some ([], drop (length pat) (c # cs))
      else (case firstOccurrence pat cs of
              None \<Rightarrow> None
            | Some (pre, post) \<Rightarrow> Some (c # pre, post)))"

definition replace :: "string \<Rightarrow> string \<Rightarrow> string \<Rightarrow> string" where
  "replace s pat replacement =
     (case firstOccurrence pat s of
        None \<Rightarrow> s
      | Some (pre, post) \<Rightarrow> pre @ getSubstitution pat pre post replacement @ post)"


section \<open>The DOM\<close>

text \<open>
  Tag names are kept in lower case, as the scripts compare them. A text node has no
  children, no tag and no attributes.
\<close>

fun textContent :: "node \<Rightarrow> string" where
  "textContent (TextNode v) = v"
| "textContent (Element i tag as ks) = concat (map textContent ks)"

fun childNodes :: "node \<Rightarrow> node list" where
  "childNodes (TextNode v) = []"
| "childNodes (Element i tag as ks) = ks"

fun isElement :: "node \<Rightarrow> bool" where
  "isElement (TextNode v) = False"
| "isElement (Element i tag as ks) = True"

definition children :: "node \<Rightarrow> node list" where
  "children el = filter isElement (childNodes el)"

fun tagName :: "node \<Rightarrow> string" where
  "tagName (TextNode v) = ''''"
| "tagName (Element i tag as ks) = tag"

fun getAttribute :: "node \<Rightarrow> string \<Rightarrow> string option" where
  "getAttribute (TextNode v) name = None"
| "getAttribute (Element i tag as ks) name = map_of as name"

text \<open>\<open>setAttribute\<close> changes the value of an attribute in place or adds it at the end.\<close>

fun setAttr :: "string \<Rightarrow> string \<Rightarrow> (string \<times> string) list \<Rightarrow> (string \<times> string) list" where
  "setAttr name v [] = [(name, v)]"
| "setAttr name v ((n, w) # as) = (if n = name then (n, v) # as else (n, w) # setAttr name v as)"

fun setAttribute :: "string \<Rightarrow> string \<Rightarrow> node \<Rightarrow> node" where
  "setAttribute name v (TextNode w) = TextNode w"
| "setAttribute name v (Element i tag as ks) = Element i tag (setAttr name v as) ks"

text \<open>
  Assigning to \<open>textContent\<close> replaces all children by one text node, or by nothing when the
  string is empty.
\<close>

fun setTextContent :: "string \<Rightarrow> node \<Rightarrow> node" where
  "setTextContent v (TextNode w) = TextNode v"
| "setTextContent v (Element i tag as ks) = Element i tag as (if v = [] then [] else [TextNode v])"

fun setChildNodes :: "node list \<Rightarrow> node \<Rightarrow> node" where
  "setChildNodes ks' (TextNode w) = TextNode w"
| "setChildNodes ks' (Element i tag as ks) = Element i tag as ks'"

fun appendChild :: "node \<Rightarrow> node \<Rightarrow> node" where
  "appendChild child (TextNode w) = TextNode w"
| "appendChild child (Element i tag as ks) = Element i tag as (ks @ [child])"

fun nodeId :: "node \<Rightarrow> nat" where
  "nodeId (TextNode v) = 0"
| "nodeId (Element i tag as ks) = i"

text \<open>The elements of a tree in document order, and their identities.\<close>

fun elements :: "node \<Rightarrow> node list" where
  "elements (TextNode v) = []"
| "elements (Element i tag as ks) = Element i tag as ks # concat (map elements ks)"

definition nodeIds :: "node \<Rightarrow> nat list" where
  "nodeIds n = map nodeId (elements n)"

text \<open>
  A simple selector: a tag name and attributes with their values. A selector list matches
  when one of its members does. The scripts put a locale code between the quotes of an
  attribute selector; locale codes are taken to be plain tags, for which that selector is
  well formed, and attribute values are compared as they are written.
\<close>

type_synonym selector = "string \<times> (string \<times> string) list"

definition matches :: "selector list \<Rightarrow> node \<Rightarrow> bool" where
  "matches sels el \<longleftrightarrow>
     (\<exists>(tag, attrs) \<in> set sels. tagName el = tag \<and> (\<forall>(n, v) \<in> set attrs. getAttribute el n = Some v))"

definition querySelectorAll :: "selector list \<Rightarrow> node \<Rightarrow> node list" where
  "querySelectorAll sels doc = filter (matches sels) (elements doc)"

definition querySelector :: "selector list \<Rightarrow> node \<Rightarrow> node option" where
  "querySelector sels doc = (case querySelectorAll sels doc of [] \<Rightarrow> None | el # _ \<Rightarrow> Some el)"

text \<open>The element with a given identity, in a list of trees, and its replacement.\<close>

fun findNode :: "nat \<Rightarrow> node list \<Rightarrow> node option" where
  "findNode i [] = None"
| "findNode i (TextNode v # ns) = findNode i ns"
| "findNode i (Element j tag as ks # ns) =
     (if i = j then Some (Element j tag as ks)
      else (case findNode i ks of Some el \<Rightarrow> Some el | None \<Rightarrow> findNode i ns))"

fun updateNode :: "nat \<Rightarrow> (node \<Rightarrow> node) \<Rightarrow> node \<Rightarrow> node" where
  "updateNode i f (TextNode v) = TextNode v"
| "updateNode i f (Element j tag as ks) =
     (if i = j then f (Element j tag as ks) else Element j tag as (map (updateNode i f) ks))"

text \<open>
  \<open>new JSDOM(content)\<close> gives every element of the parsed tree a fresh identity, here its
  position in document order; \<open>serialize\<close> forgets the identities again.
\<close>

fun label :: "nat \<Rightarrow> html \<Rightarrow> node \<times> nat"
  and labels :: "nat \<Rightarrow> html list \<Rightarrow> node list \<times> nat" where
  "label n (HText v) = (TextNode v, n)"
| "label n (HElement tag as ks) = (case labels (Suc n) ks of (ks', m) \<Rightarrow> (Element n tag as ks', m))"
| "labels n [] = ([], n)"
| "labels n (k # ks) =
     (case label n k of (k', m) \<Rightarrow> (case labels m ks of (ks', m') \<Rightarrow> (k' # ks', m')))"

definition JSDOM :: "html \<Rightarrow> node" where
  "JSDOM content = fst (label 0 content)"

fun serialize :: "node \<Rightarrow> html" where
  "serialize (TextNode v) = HText v"
| "serialize (Element i tag as ks) = HElement tag as (map serialize ks)"

definition createElement :: "node \<Rightarrow> string \<Rightarrow> node" where
  "createElement doc tag = Element (Suc (fold max (nodeIds doc) 0)) tag [] []"

text \<open>
  \<open>document.head\<close> is the first \<open>head\<close> child of the \<open>html\<close> root. The parser always
  builds one; in a tree without it \<open>document.head\<close> is \<open>null\<close> and appending to it throws.
\<close>

definition head :: "node \<Rightarrow> node option" where
  "head doc = (if tagName doc = ''html''
               then (case filter (\<lambda>k. tagName k = ''head'') (childNodes doc) of
                       [] \<Rightarrow> None | h # _ \<Rightarrow> Some h)
               else None)"

definition appendToHead :: "node \<Rightarrow> node \<Rightarrow> exn + node" where
  "appendToHead child doc =
     (case head doc of
        None \<Rightarrow> Inl TypeError
      | Some h \<Rightarrow> Inr (updateNode (nodeId h) (appendChild child) doc))"

text \<open>
  When an operation has turned the element \<open>old\<close> into \<open>new\<close>, the elements of \<open>old\<close> that
  are no longer part of \<open>new\<close> have not ceased to exist: a list obtained from an earlier
  query still holds them. \<open>detached\<close> gives the topmost of them.
\<close>

fun detachedFrom :: "nat list \<Rightarrow> node \<Rightarrow> node list" where
  "detachedFrom kept (TextNode v) = []"
| "detachedFrom kept (Element i tag as ks) =
     concat (map (\<lambda>k. if isElement k \<and> nodeId k \<notin> set kept then [k] else detachedFrom kept k) ks)"

definition detached :: "node \<Rightarrow> node \<Rightarrow> node list" where
  "detached old new = detachedFrom (nodeIds new) old"


section \<open>Translating one element\<close>

text \<open>
  \<open>translateElementText\<close> of \<open>index.js\<close>. The string literal of its second test holds the
  two code units \<open>0xC2 0xA9\<close> in the source file. The loop over the child nodes stops at
  the first rejection; the text nodes translated before it keep their new value.
\<close>

fun translateChildNodes ::
  "provider \<Rightarrow> string \<Rightarrow> node list \<Rightarrow> state \<Rightarrow> (exn option \<times> node list) \<times> state" where
  "translateChildNodes p lang [] s = ((None, []), s)"
| "translateChildNodes p lang (TextNode v # ks) s =
     (case translateText p (trim v) lang s of
        (Inl e, s1) \<Rightarrow> ((Some e, TextNode v # ks), s1)
      | (Inr translatedText, s1) \<Rightarrow>
          (case translateChildNodes p lang ks s1 of
             ((r, ks'), s2) \<Rightarrow> ((r, TextNode translatedText # ks'), s2)))"
| "translateChildNodes p lang (Element i tag as cs # ks) s =
     (case translateChildNodes p lang ks s of
        ((r, ks'), s1) \<Rightarrow> ((r, Element i tag as cs # ks'), s1))"

definition translateElementText :: "provider \<Rightarrow> node \<Rightarrow> string \<Rightarrow> state \<Rightarrow> node \<times> state" where
  "translateElementText p element lang s =
     (if trim (textContent element) = [] \<or>
         startsWith (trim (textContent element)) [CHR 0xC2, CHR 0xA9] \<or>
         includes_str (toLowerCase (textContent element)) brand
      then (element, s)
      else if childNodes element \<noteq> [] then
        (case translateChildNodes p lang (childNodes element) s of
           ((None, ks), s1) \<Rightarrow> (setChildNodes ks element, s1)
         | ((Some e, ks), s1) \<Rightarrow>
             (setChildNodes ks element,
              s1\<lparr>log := log s1 @
                 [ErrorTranslatingElement (textContent (setChildNodes ks element)) lang]\<rparr>))
      else
        (case translateText p (trim (textContent element)) lang s of
           (Inr translatedText, s1) \<Rightarrow> (setTextContent translatedText element, s1)
         | (Inl e, s1) \<Rightarrow>
             (element, s1\<lparr>log := log s1 @ [ErrorTranslatingElement (textContent element) lang]\<rparr>)))"

text \<open>\<open>translateAnchorElement\<close> of \<open>index.js\<close>; nothing catches a rejection here.\<close>

definition translateAnchorElement ::
  "provider \<Rightarrow> node \<Rightarrow> string \<Rightarrow> state \<Rightarrow> (exn + node) \<times> state" where
  "translateAnchorElement p element lang s =
     (let element1 =
        (case getAttribute element ''href'' of
           None \<Rightarrow> element
         | Some originalHref \<Rightarrow>
             if originalHref \<noteq> [] \<and> includes_str originalHref ''/en/''
             then setAttribute ''href'' (replace originalHref ''/en/'' (''/'' @ lang @ ''/'')) element
             else element);
          text = trim (textContent element1)
      in if text \<noteq> [] then
           (case translateText p text lang s of
              (Inl e, s1) \<Rightarrow> (Inl e, s1)
            | (Inr translatedText, s1) \<Rightarrow> (Inr (setTextContent translatedText element1), s1))
         else (Inr element1, s))"

text \<open>\<open>translateElementText\<close> of the second script.\<close>

definition translateElementText_part000 ::
  "provider \<Rightarrow> node \<Rightarrow> string \<Rightarrow> state \<Rightarrow> (exn + node) \<times> state" where
  "translateElementText_part000 p element lang s =
     (let text = trim (textContent element)
      in if text = [] then (Inr element, s)
         else if startsWith text [CHR 0xA9] \<or> includes_str (toLowerCase text) brand
         then (Inr element, s)
         else (case translateText p text lang s of
                 (Inl e, s1) \<Rightarrow> (Inl e, s1)
               | (Inr translatedText, s1) \<Rightarrow> (Inr (setTextContent translatedText element), s1)))"

text \<open>
  The body of the loop over the selected elements in the second script (lines 158 to 181):
  an anchor has its child elements translated one by one, or itself when it has none, and
  then its link rewritten; every other element is translated as a whole.
\<close>

fun translateChildren ::
  "provider \<Rightarrow> string \<Rightarrow> node list \<Rightarrow> state \<Rightarrow> (exn + node list) \<times> state" where
  "translateChildren p lang [] s = (Inr [], s)"
| "translateChildren p lang (TextNode v # ks) s =
     (case translateChildren p lang ks s of
        (Inl e, s1) \<Rightarrow> (Inl e, s1)
      | (Inr ks', s1) \<Rightarrow> (Inr (TextNode v # ks'), s1))"
| "translateChildren p lang (Element i tag as cs # ks) s =
     (case translateElementText_part000 p (Element i tag as cs) lang s of
        (Inl e, s1) \<Rightarrow> (Inl e, s1)
      | (Inr child, s1) \<Rightarrow>
          (case translateChildren p lang ks s1 of
             (Inl e, s2) \<Rightarrow> (Inl e, s2)
           | (Inr ks', s2) \<Rightarrow> (Inr (child # ks'), s2)))"

definition updateHref_part000 :: "string \<Rightarrow> node \<Rightarrow> node" where
  "updateHref_part000 lang element =
     (case getAttribute element ''href'' of
        None \<Rightarrow> element
      | Some href \<Rightarrow>
          if includes_str href ''/en/''
          then setAttribute ''href'' (replace href ''/en/'' (''/'' @ lang @ ''/'')) element
          else element)"

definition translateElement_part000 ::
  "provider \<Rightarrow> node \<Rightarrow> string \<Rightarrow> state \<Rightarrow> (exn + node) \<times> state" where
  "translateElement_part000 p element lang s =
     (if tagName element = ''a'' then
        (case (if children element \<noteq> []
               then (case translateChildren p lang (childNodes element) s of
                       (Inl e, s1) \<Rightarrow> (Inl e, s1)
                     | (Inr ks, s1) \<Rightarrow> (Inr (setChildNodes ks element), s1))
               else translateElementText_part000 p element lang s) of
           (Inl e, s1) \<Rightarrow> (Inl e, s1)
         | (Inr element1, s1) \<Rightarrow> (Inr (updateHref_part000 lang element1), s1))
      else if tagName element = ''div'' \<and> trim (textContent element) \<noteq> [] then
        translateElementText_part000 p element lang s
      else translateElementText_part000 p element lang s)"


section \<open>translateHTML\<close>

definition elementsQuery :: "selector list" where
  "elementsQuery = map (\<lambda>tag. (tag, []))
     [''h1'', ''h2'', ''h3'', ''h4'', ''span'', ''a'', ''button'', ''p'', ''label'', ''option'', ''div'']"

text \<open>
  The loop over the node list of \<open>querySelectorAll(elementsQuery)\<close>. The list is fixed when
  the loop starts. The first tree of \<open>forest\<close> is the document; the others are what earlier
  steps of the loop have taken out of it, which the list still reaches.
\<close>

fun processElements ::
  "provider \<Rightarrow> string \<Rightarrow> nat list \<Rightarrow> node list \<Rightarrow> state \<Rightarrow> (exn + node list) \<times> state" where
  "processElements p lang [] forest s = (Inr forest, s)"
| "processElements p lang (i # ids) forest s =
     (case findNode i forest of
        None \<Rightarrow> processElements p lang ids forest s
      | Some element \<Rightarrow>
          if tagName element = ''a'' then
            (case translateAnchorElement p element lang s of
               (Inl e, s1) \<Rightarrow> (Inl e, s1)
             | (Inr element', s1) \<Rightarrow>
                 processElements p lang ids
                   (map (updateNode i (\<lambda>_. element')) forest @ detached element element') s1)
          else
            (case translateElementText p element lang s of
               (element', s1) \<Rightarrow>
                 processElements p lang ids
                   (map (updateNode i (\<lambda>_. element')) forest @ detached element element') s1))"

fun processElements_part000 ::
  "provider \<Rightarrow> string \<Rightarrow> nat list \<Rightarrow> node list \<Rightarrow> state \<Rightarrow> (exn + node list) \<times> state" where
  "processElements_part000 p lang [] forest s = (Inr forest, s)"
| "processElements_part000 p lang (i # ids) forest s =
     (case findNode i forest of
        None \<Rightarrow> processElements_part000 p lang ids forest s
      | Some element \<Rightarrow>
          (case translateElement_part000 p element lang s of
             (Inl e, s1) \<Rightarrow> (Inl e, s1)
           | (Inr element', s1) \<Rightarrow>
               processElements_part000 p lang ids
                 (map (updateNode i (\<lambda>_. element')) forest @ detached element element') s1))"

text \<open>The statements of a \<open>try\<close> block, run in order until one of them throws.\<close>

type_synonym step = "node \<Rightarrow> state \<Rightarrow> (exn + node) \<times> state"

fun runSteps :: "step list \<Rightarrow> step" where
  "runSteps [] doc s = (Inr doc, s)"
| "runSteps (f # fs) doc s =
     (case f doc s of
        (Inl e, s1) \<Rightarrow> (Inl e, s1)
      | (Inr doc1, s1) \<Rightarrow> runSteps fs doc1 s1)"

definition setHtmlLang :: "string \<Rightarrow> step" where
  "setHtmlLang lang doc s =
     (case querySelector [(''html'', [])] doc of
        None \<Rightarrow> (Inr doc, s)
      | Some htmlTag \<Rightarrow> (Inr (updateNode (nodeId htmlTag) (setAttribute ''lang'' lang) doc), s))"

definition alternateLink :: "node \<Rightarrow> string \<Rightarrow> string \<Rightarrow> node" where
  "alternateLink doc lang href =
     setAttribute ''href'' href
       (setAttribute ''hreflang'' lang (setAttribute ''rel'' ''alternate'' (createElement doc ''link'')))"

text \<open>
  "Update alternates for all languages", as \<open>index.js\<close> does it on the document parsed
  first (lines 101 to 111), and as the second script does it on either document (lines 66
  to 76 and 123 to 135).
\<close>

fun updateAlternates :: "string \<Rightarrow> langObj list \<Rightarrow> node \<Rightarrow> exn + node" where
  "updateAlternates relativePath [] doc = Inr doc"
| "updateAlternates relativePath (langObj # ls) doc =
     (case querySelector [(''link'', [(''rel'', ''alternate''), (''hreflang'', code langObj)])] doc of
        Some existingAltLink \<Rightarrow> updateAlternates relativePath ls doc
      | None \<Rightarrow>
          (case appendToHead
                  (alternateLink doc (code langObj) (constructCanonicalUrl relativePath (code langObj)))
                  doc of
             Inl e \<Rightarrow> Inl e
           | Inr doc1 \<Rightarrow> updateAlternates relativePath ls doc1))"

fun updateAlternates_part000 :: "string \<Rightarrow> langObj list \<Rightarrow> node \<Rightarrow> exn + node" where
  "updateAlternates_part000 relativePath [] doc = Inr doc"
| "updateAlternates_part000 relativePath (langObj # ls) doc =
     (case querySelector [(''link'', [(''rel'', ''alternate''), (''hreflang'', code langObj)])] doc of
        Some existingAltLink \<Rightarrow> updateAlternates_part000 relativePath ls doc
      | None \<Rightarrow>
          (case appendToHead
                  (alternateLink doc (code langObj)
                     (''https://evaluating.tools/'' @ code langObj @ ''/'' @ relativePath))
                  doc of
             Inl e \<Rightarrow> Inl e
           | Inr doc1 \<Rightarrow> updateAlternates_part000 relativePath ls doc1))"

text \<open>The canonical link of \<open>index.js\<close> (lines 125 to 131).\<close>

definition setCanonicalLink :: "string \<Rightarrow> string \<Rightarrow> step" where
  "setCanonicalLink relativePath lang doc s =
     (case querySelector [(''link'', [(''rel'', ''canonical'')])] doc of
        Some canonicalLink \<Rightarrow>
          (Inr (updateNode (nodeId canonicalLink)
                  (\<lambda>el. setAttribute ''href'' (constructCanonicalUrl relativePath lang)
                           (setAttribute ''rel'' ''canonical'' el)) doc), s)
      | None \<Rightarrow>
          (case appendToHead (createElement doc ''link'') doc of
             Inl e \<Rightarrow> (Inl e, s)
           | Inr doc1 \<Rightarrow>
               (Inr (updateNode (nodeId (createElement doc ''link''))
                       (\<lambda>el. setAttribute ''href'' (constructCanonicalUrl relativePath lang)
                                (setAttribute ''rel'' ''canonical'' el)) doc1), s)))"

text \<open>
  \<open>getAttribute\<close> gives \<open>null\<close> for an attribute that is not there. \<open>translateText\<close> then
  builds its cache key from the string \<open>null\<close> and, unless that key is cached, throws a
  \<open>TypeError\<close> at \<open>text.toLowerCase()\<close>.
\<close>

definition translateText_nullable ::
  "provider \<Rightarrow> string option \<Rightarrow> string \<Rightarrow> state \<Rightarrow> (exn + string) \<times> state" where
  "translateText_nullable p text lang s =
     (case text of
        Some t \<Rightarrow> translateText p t lang s
      | None \<Rightarrow> (case cache s (cacheKey lang ''null'') of
                   Some v \<Rightarrow> (Inr v, s)
                 | None \<Rightarrow> (Inl TypeError, s)))"

text \<open>The pattern of lines 134 to 146 and 154 to 166 of \<open>index.js\<close>, for one \<open>meta\<close> selector.\<close>

definition translateMetaContent :: "provider \<Rightarrow> selector \<Rightarrow> string \<Rightarrow> step" where
  "translateMetaContent p sel lang doc s =
     (case querySelector [sel] doc of
        None \<Rightarrow> (Inr doc, s)
      | Some meta \<Rightarrow>
          (case translateText_nullable p (getAttribute meta ''content'') lang s of
             (Inl e, s1) \<Rightarrow> (Inl e, s1)
           | (Inr translated, s1) \<Rightarrow>
               (Inr (updateNode (nodeId meta) (setAttribute ''content'' translated) doc), s1)))"

definition setMetaOgUrl :: "string \<Rightarrow> string \<Rightarrow> step" where
  "setMetaOgUrl relativePath lang doc s =
     (case querySelector [(''meta'', [(''property'', ''og:url'')])] doc of
        None \<Rightarrow> (Inr doc, s)
      | Some metaOgUrl \<Rightarrow>
          (Inr (updateNode (nodeId metaOgUrl)
                  (setAttribute ''content'' (constructCanonicalUrl relativePath lang)) doc), s))"

definition translateElements :: "provider \<Rightarrow> string \<Rightarrow> step" where
  "translateElements p lang doc s =
     (case processElements p lang (map nodeId (querySelectorAll elementsQuery doc)) [doc] s of
        (Inl e, s1) \<Rightarrow> (Inl e, s1)
      | (Inr forest, s1) \<Rightarrow> (Inr (case forest of [] \<Rightarrow> doc | document # _ \<Rightarrow> document), s1))"

text \<open>
  Writing the output (lines 177 to 181). The file system is a parameter that tells for
  which paths \<open>mkdirSync\<close> and \<open>writeFileSync\<close> succeed. A path is kept as the locale, the
  relative path and the base name that \<open>path.join\<close> puts together.
\<close>

definition basename :: "string \<Rightarrow> string" where
  "basename filePath = rev (takeWhile (\<lambda>c. c \<noteq> CHR ''/'') (rev filePath))"

definition writeOutput ::
  "(string \<times> string \<times> string \<Rightarrow> bool) \<Rightarrow> string \<Rightarrow> string \<Rightarrow> string \<Rightarrow> node \<Rightarrow> state \<Rightarrow>
     (exn + unit) \<times> state" where
  "writeOutput writable filePath relativePath lang doc s =
     (let outputFilePath = (lang, relativePath, basename filePath)
      in if writable outputFilePath
         then (Inr (), s\<lparr>files := files s @ [(outputFilePath, serialize doc)],
                         log := log s @ [Translated filePath outputFilePath]\<rparr>)
         else (Inl FsError, s))"

text \<open>The \<open>try\<close> block of \<open>index.js\<close> (lines 119 to 181) for one document and one locale.\<close>

definition translateDocument ::
  "provider \<Rightarrow> (string \<times> string \<times> string \<Rightarrow> bool) \<Rightarrow> html \<Rightarrow> string \<Rightarrow> string \<Rightarrow> string \<Rightarrow> state \<Rightarrow>
     (exn + unit) \<times> state" where
  "translateDocument p writable content filePath relativePath lang s =
     (case runSteps
             [setHtmlLang lang,
              setCanonicalLink relativePath lang,
              translateMetaContent p (''meta'', [(''property'', ''og:title'')]) lang,
              translateMetaContent p (''meta'', [(''property'', ''og:description'')]) lang,
              setMetaOgUrl relativePath lang,
              translateMetaContent p (''meta'', [(''name'', ''title'')]) lang,
              translateMetaContent p (''meta'', [(''name'', ''description'')]) lang,
              translateElements p lang]
             (JSDOM content) s of
        (Inl e, s1) \<Rightarrow> (Inl e, s1)
      | (Inr translatedDocument, s1) \<Rightarrow>
          writeOutput writable filePath relativePath lang translatedDocument s1)"

text \<open>The loop over the locales (lines 114 to 185): the \<open>catch\<close> prints and goes on.\<close>

fun translateLanguages ::
  "provider \<Rightarrow> (string \<times> string \<times> string \<Rightarrow> bool) \<Rightarrow> html \<Rightarrow> string \<Rightarrow> string \<Rightarrow>
     langObj list \<Rightarrow> state \<Rightarrow> state" where
  "translateLanguages p writable content filePath relativePath [] s = s"
| "translateLanguages p writable content filePath relativePath (langObj # ls) s =
     (if \<not> createnew langObj
      then translateLanguages p writable content filePath relativePath ls s
      else (case translateDocument p writable content filePath relativePath (code langObj) s of
              (Inl err, s1) \<Rightarrow>
                translateLanguages p writable content filePath relativePath ls
                  (s1\<lparr>log := log s1 @ [ErrorProcessingFile filePath (code langObj)]\<rparr>)
            | (Inr u, s1) \<Rightarrow> translateLanguages p writable content filePath relativePath ls s1))"

text \<open>
  \<open>translateHTML\<close> of \<open>index.js\<close>, for the content read from \<open>filePath\<close>. The document parsed
  first receives the alternate links and is not used again; the loop over the locales
  parses the content anew for every locale. An exception of the first loop is not caught.
\<close>

definition translateHTML ::
  "provider \<Rightarrow> langObj list \<Rightarrow> (string \<times> string \<times> string \<Rightarrow> bool) \<Rightarrow> html \<Rightarrow> string \<Rightarrow> string \<Rightarrow>
     state \<Rightarrow> (exn + unit) \<times> state" where
  "translateHTML p languages writable content filePath relativePath s =
     (case updateAlternates relativePath languages (JSDOM content) of
        Inl e \<Rightarrow> (Inl e, s)
      | Inr document \<Rightarrow>
          (Inr (), translateLanguages p writable content filePath relativePath languages s))"


section \<open>translateHTML in the second script\<close>

definition setMetaLanguage :: "string \<Rightarrow> step" where
  "setMetaLanguage lang doc s =
     (case querySelector [(''meta'', [(''name'', ''language'')])] doc of
        Some metaLanguageTag \<Rightarrow>
          (Inr (updateNode (nodeId metaLanguageTag) (setAttribute ''content'' lang) doc), s)
      | None \<Rightarrow>
          (case appendToHead (setAttribute ''name'' ''language'' (createElement doc ''meta'')) doc of
             Inl e \<Rightarrow> (Inl e, s)
           | Inr doc1 \<Rightarrow>
               (Inr (updateNode (nodeId (createElement doc ''meta''))
                       (setAttribute ''content'' lang) doc1), s)))"

definition setCanonicalLink_part000 :: "string \<Rightarrow> string \<Rightarrow> step" where
  "setCanonicalLink_part000 relativePath lang doc s =
     (case querySelector [(''link'', [(''rel'', ''canonical'')])] doc of
        Some canonicalLink \<Rightarrow>
          (Inr (updateNode (nodeId canonicalLink)
                  (setAttribute ''href'' (canonicalUrl_part000 relativePath lang)) doc), s)
      | None \<Rightarrow>
          (case appendToHead (setAttribute ''rel'' ''canonical'' (createElement doc ''link'')) doc of
             Inl e \<Rightarrow> (Inl e, s)
           | Inr doc1 \<Rightarrow>
               (Inr (updateNode (nodeId (createElement doc ''link''))
                       (setAttribute ''href'' (canonicalUrl_part000 relativePath lang)) doc1), s)))"

definition addAlternates_part000 :: "string \<Rightarrow> langObj list \<Rightarrow> step" where
  "addAlternates_part000 relativePath languages doc s =
     (case updateAlternates_part000 relativePath languages doc of
        Inl e \<Rightarrow> (Inl e, s)
      | Inr doc1 \<Rightarrow> (Inr doc1, s))"

definition translateTitle :: "provider \<Rightarrow> string \<Rightarrow> step" where
  "translateTitle p lang doc s =
     (case querySelector [(''title'', [])] doc of
        None \<Rightarrow> (Inr doc, s)
      | Some titleElement \<Rightarrow>
          (case translateText p (textContent titleElement) lang s of
             (Inl e, s1) \<Rightarrow> (Inl e, s1)
           | (Inr translatedTitle, s1) \<Rightarrow>
               (Inr (updateNode (nodeId titleElement) (setTextContent translatedTitle) doc), s1)))"

definition translateMetaDescription_part000 :: "provider \<Rightarrow> string \<Rightarrow> step" where
  "translateMetaDescription_part000 p lang doc s =
     (case querySelector [(''meta'', [(''name'', ''description'')])] doc of
        None \<Rightarrow> (Inr doc, s)
      | Some metaDescription \<Rightarrow>
          (case getAttribute metaDescription ''content'' of
             None \<Rightarrow> (Inr doc, s)
           | Some descriptionContent \<Rightarrow>
               if descriptionContent = [] then (Inr doc, s)
               else (case translateText p descriptionContent lang s of
                       (Inl e, s1) \<Rightarrow> (Inl e, s1)
                     | (Inr translatedDescription, s1) \<Rightarrow>
                         (Inr (updateNode (nodeId metaDescription)
                                 (setAttribute ''content'' translatedDescription) doc), s1))))"

definition translateElements_part000 :: "provider \<Rightarrow> string \<Rightarrow> step" where
  "translateElements_part000 p lang doc s =
     (case processElements_part000 p lang (map nodeId (querySelectorAll elementsQuery doc)) [doc] s of
        (Inl e, s1) \<Rightarrow> (Inl e, s1)
      | (Inr forest, s1) \<Rightarrow> (Inr (case forest of [] \<Rightarrow> doc | document # _ \<Rightarrow> document), s1))"

text \<open>The \<open>try\<close> block of the second script (lines 87 to 189).\<close>

definition translateDocument_part000 ::
  "provider \<Rightarrow> langObj list \<Rightarrow> (string \<times> string \<times> string \<Rightarrow> bool) \<Rightarrow> html \<Rightarrow> string \<Rightarrow> string \<Rightarrow>
     string \<Rightarrow> state \<Rightarrow> (exn + unit) \<times> state" where
  "translateDocument_part000 p languages writable content filePath relativePath lang s =
     (case runSteps
             [setHtmlLang lang,
              setMetaLanguage lang,
              setCanonicalLink_part000 relativePath lang,
              addAlternates_part000 relativePath languages,
              translateTitle p lang,
              translateMetaDescription_part000 p lang,
              translateElements_part000 p lang]
             (JSDOM content) s of
        (Inl e, s1) \<Rightarrow> (Inl e, s1)
      | (Inr translatedDocument, s1) \<Rightarrow>
          writeOutput writable filePath relativePath lang translatedDocument s1)"

fun translateLanguages_part000 ::
  "provider \<Rightarrow> langObj list \<Rightarrow> (string \<times> string \<times> string \<Rightarrow> bool) \<Rightarrow> html \<Rightarrow> string \<Rightarrow> string \<Rightarrow>
     langObj list \<Rightarrow> state \<Rightarrow> state" where
  "translateLanguages_part000 p languages writable content filePath relativePath [] s = s"
| "translateLanguages_part000 p languages writable content filePath relativePath (langObj # ls) s =
     (if \<not> createnew langObj
      then translateLanguages_part000 p languages writable content filePath relativePath ls
             (s\<lparr>log := log s @ [SkippingCreation (code langObj)]\<rparr>)
      else (case translateDocument_part000 p languages writable content filePath relativePath
                   (code langObj) s of
              (Inl err, s1) \<Rightarrow>
                translateLanguages_part000 p languages writable content filePath relativePath ls
                  (s1\<lparr>log := log s1 @ [ErrorProcessingFile filePath (code langObj)]\<rparr>)
            | (Inr u, s1) \<Rightarrow>
                translateLanguages_part000 p languages writable content filePath relativePath ls s1))"

definition translateHTML_part000 ::
  "provider \<Rightarrow> langObj list \<Rightarrow> (string \<times> string \<times> string \<Rightarrow> bool) \<Rightarrow> html \<Rightarrow> string \<Rightarrow> string \<Rightarrow>
     state \<Rightarrow> (exn + unit) \<times> state" where
  "translateHTML_part000 p languages writable content filePath relativePath s =
     (case updateAlternates_part000 relativePath languages (JSDOM content) of
        Inl e \<Rightarrow> (Inl e, s)
      | Inr document \<Rightarrow>
          (Inr (), translateLanguages_part000 p languages writable content filePath relativePath
                     languages s))"

text \<open>
  A small site to run the scripts on: one page at the root of the input folder, and a
  registry with a locale that gets a file of its own and one that does not.
\<close>

definition samplePage :: html where
  "samplePage =
     HElement ''html'' []
       [HElement ''head'' [] [HElement ''title'' [] [HText ''Welcome'']],
        HElement ''body'' []
          [HElement ''a'' [(''href'', ''/en/about'')] [HText ''About'']]]"

definition sampleLanguages :: "langObj list" where
  "sampleLanguages = [\<lparr>code = ''fr'', createnew = True\<rparr>, \<lparr>code = ''en'', createnew = False\<rparr>]"


text \<open>A file system on which every write succeeds.\<close>

definition writableEverywhere :: "string \<times> string \<times> string \<Rightarrow> bool" where
  "writableEverywhere outputFilePath = True"

text \<open>
  A page whose title and whose only link carry the brand token, and a registry of two
  locales that both get a file of their own.
\<close>

definition brandPage :: html where
  "brandPage =
     HElement ''html'' []
       [HElement ''head'' [] [HElement ''title'' [] [HText ''About evaluating.tools'']],
        HElement ''body'' []
          [HElement ''a'' [(''href'', ''/en/'')] [HText ''evaluating.tools home'']]]"

definition twoLanguages :: "langObj list" where
  "twoLanguages = [\<lparr>code = ''fr'', createnew = True\<rparr>, \<lparr>code = ''de'', createnew = True\<rparr>]"


section \<open>Properties of the string functions\<close>

lemma split_not_Nil: "split sep s \<noteq> []"
  by (subst split.simps) (auto split: list.splits)

lemma includes_str_iff: "includes_str s sub \<longleftrightarrow> (\<exists>pre post. s = pre @ sub @ post)"
proof (induction s)
  case Nil
  then show ?case by auto
next
  case (Cons c cs)
  show ?case
  proof
    assume "includes_str (c # cs) sub"
    then consider "prefix sub (c # cs)" | "includes_str cs sub" by auto
    then show "\<exists>pre post. c # cs = pre @ sub @ post"
    proof cases
      case 1
      then obtain post where "c # cs = sub @ post" by (auto simp: prefix_def)
      then have "c # cs = [] @ sub @ post" by simp
      then show ?thesis by blast
    next
      case 2
      with Cons obtain pre post where "cs = pre @ sub @ post" by auto
      then have "c # cs = (c # pre) @ sub @ post" by simp
      then show ?thesis by blast
    qed
  next
    assume "\<exists>pre post. c # cs = pre @ sub @ post"
    then obtain pre post where e: "c # cs = pre @ sub @ post" by blast
    show "includes_str (c # cs) sub"
    proof (cases pre)
      case Nil
      with e have "prefix sub (c # cs)" by (auto simp: prefix_def)
      then show ?thesis by simp
    next
      case (Cons a pre')
      with e have "cs = pre' @ sub @ post" by simp
      with Cons.IH have "includes_str cs sub" by blast
      then show ?thesis by simp
    qed
  qed
qed

lemma join_split: "sep \<noteq> [] \<Longrightarrow> join sep (split sep s) = s"
proof (induction sep s rule: split.induct)
  case (1 sep s)
  show ?case
  proof (cases "prefix sep s")
    case True
    then obtain rest where s: "s = sep @ rest" by (auto simp: prefix_def)
    from True 1 have "join sep (split sep (drop (length sep) s)) = drop (length sep) s" by simp
    moreover obtain y ys where "split sep (drop (length sep) s) = y # ys"
      using split_not_Nil by (cases "split sep (drop (length sep) s)") auto
    ultimately show ?thesis using True 1 s by (subst split.simps) simp
  next
    case False
    show ?thesis
    proof (cases s)
      case Nil
      then show ?thesis using False by (subst split.simps) simp
    next
      case (Cons c cs)
      obtain y ys where y: "split sep cs = y # ys"
        using split_not_Nil by (cases "split sep cs") auto
      from 1(2)[OF _ Cons] False 1(3) have "join sep (split sep cs) = cs" by simp
      then show ?thesis using False Cons y
        by (subst split.simps) (cases ys; simp)
    qed
  qed
qed

lemma split_no_sep: "\<not> includes_str s sep \<Longrightarrow> split sep s = [s]"
proof (induction s)
  case Nil
  then show ?case by (subst split.simps) simp
next
  case (Cons c cs)
  then show ?case by (subst split.simps) simp
qed

lemma join_Cons_prefix: "prefix y (join sep (y # ys))"
  by (cases ys) auto

lemma parts_no_sep: "sep \<noteq> [] \<Longrightarrow> \<forall>part \<in> set (split sep s). \<not> includes_str part sep"
proof (induction sep s rule: split.induct)
  case (1 sep s)
  have nil: "\<not> includes_str [] sep" using 1(3) by simp
  show ?case
  proof (cases "prefix sep s")
    case True
    with 1 have "\<forall>part \<in> set (split sep (drop (length sep) s)). \<not> includes_str part sep" by simp
    then show ?thesis using True 1(3) nil by (subst split.simps) simp
  next
    case False
    show ?thesis
    proof (cases s)
      case Nil
      then show ?thesis using False nil by (subst split.simps) simp
    next
      case (Cons c cs)
      obtain y ys where y: "split sep cs = y # ys"
        using split_not_Nil by (cases "split sep cs") auto
      from 1(2)[OF _ Cons] False 1(3)
      have ih: "\<forall>part \<in> set (split sep cs). \<not> includes_str part sep" by simp
      have "join sep (split sep cs) = cs" using 1(3) by (rule join_split)
      then have "prefix y cs" using y join_Cons_prefix[of y sep ys] by simp
      then have "prefix (c # y) s" using Cons by simp
      then have "\<not> prefix sep (c # y)" using False by (meson prefix_order.trans)
      then have "\<not> includes_str (c # y) sep" using ih y by simp
      then show ?thesis using False Cons y ih
        by (subst split.simps) simp
    qed
  qed
qed


section \<open>Properties of translateText\<close>

lemma translateParts_state:
  "snd (translateParts p lang parts s) =
     s\<lparr>calls := calls s @ map (\<lambda>part. (trim part, lang)) (butlast parts)\<rparr>"
  by (induction p lang parts s rule: translateParts.induct)
     (auto simp: translate_def split: prod.splits)

lemma translateParts_length: "length (fst (translateParts p lang parts s)) = length parts"
  by (induction p lang parts s rule: translateParts.induct)
     (auto simp: translate_def split: prod.splits)

lemma translateParts_last:
  "parts \<noteq> [] \<Longrightarrow> last (fst (translateParts p lang parts s)) = Some (last parts)"
proof (induction p lang parts s rule: translateParts.induct)
  case (3 p lang part nxt parts s)
  have "fst (translateParts p lang (nxt # parts) (snd (translate p (trim part) lang s))) \<noteq> []"
    using translateParts_length[of p lang "nxt # parts"] by (metis length_0_conv list.distinct(1))
  with 3 show ?case by (auto simp: translate_def split: prod.splits)
qed simp_all

lemma translateParts_nth:
  "i < length parts - 1 \<Longrightarrow>
   fst (translateParts p lang parts s) ! i = p (length (calls s) + i) (trim (parts ! i)) lang"
proof (induction p lang parts s arbitrary: i rule: translateParts.induct)
  case (3 p lang part nxt parts s)
  show ?case
  proof (cases i)
    case 0
    then show ?thesis by (simp add: translate_def split: prod.splits)
  next
    case (Suc j)
    with 3(2) have j: "j < length (nxt # parts) - 1" by simp
    have "fst (translateParts p lang (nxt # parts) (snd (translate p (trim part) lang s))) ! j =
          p (length (calls (snd (translate p (trim part) lang s))) + j) (trim ((nxt # parts) ! j)) lang"
      using 3(1)[OF _ j, of "fst (translate p (trim part) lang s)" "snd (translate p (trim part) lang s)"]
      by simp
    then show ?thesis using Suc by (auto simp: translate_def split: prod.splits)
  qed
qed simp_all

lemma promiseAll_map_Some: "promiseAll (map Some xs) = Some xs"
  by (induction xs) auto

lemma promiseAll_Some: "promiseAll rs = Some xs \<Longrightarrow> rs = map Some xs"
  by (induction rs arbitrary: xs rule: promiseAll.induct) (auto split: option.splits)

lemma promiseAll_None: "promiseAll rs = None \<longleftrightarrow> None \<in> set rs"
  by (induction rs rule: promiseAll.induct) (auto split: option.splits)

lemma translateText_hit:
  "cache s (cacheKey lang text) = Some v \<Longrightarrow> translateText p text lang s = (Inr v, s)"
  by (simp add: translateText_def)

lemma translateText_plain:
  assumes "cache s (cacheKey lang text) = None"
    and "\<not> includes_str (toLowerCase text) brand"
  shows "translateText p text lang s =
     (case p (length (calls s)) (trim text) lang of
        Some r \<Rightarrow> (Inr r, s\<lparr>calls := calls s @ [(trim text, lang)],
                             cache := (cache s)(cacheKey lang text \<mapsto> r)\<rparr>)
      | None \<Rightarrow> (Inr text, s\<lparr>calls := calls s @ [(trim text, lang)],
                              log := log s @ [ErrorTranslatingText text lang]\<rparr>))"
  using assms by (simp add: translateText_def translate_def split: option.splits)

lemma translateText_split:
  assumes brand_in: "includes_str (toLowerCase text) brand"
    and miss: "cache s (cacheKey lang text) = None"
    and ok: "\<forall>i < length (split brand text) - 1.
               p (length (calls s) + i) (trim (split brand text ! i)) lang \<noteq> None"
  shows "\<exists>segs.
      length segs = length (split brand text) \<and>
      last segs = last (split brand text) \<and>
      (\<forall>i < length (split brand text) - 1.
          p (length (calls s) + i) (trim (split brand text ! i)) lang = Some (segs ! i)) \<and>
      translateText p text lang s =
        (Inr (join brand segs),
         s\<lparr>calls := calls s @ map (\<lambda>part. (trim part, lang)) (butlast (split brand text)),
           cache := (cache s)(cacheKey lang text \<mapsto> join brand segs)\<rparr>)"
proof -
  define parts where "parts = split brand text"
  define rs where "rs = fst (translateParts p lang parts s)"
  have ne: "parts \<noteq> []" by (simp add: parts_def split_not_Nil)
  have len: "length rs = length parts" by (simp add: rs_def translateParts_length)
  have lst: "last rs = Some (last parts)" using ne by (simp add: rs_def translateParts_last)
  have nth: "rs ! i = p (length (calls s) + i) (trim (parts ! i)) lang" if "i < length parts - 1" for i
    using that by (simp add: rs_def translateParts_nth)
  have "None \<notin> set rs"
  proof
    assume "None \<in> set rs"
    then obtain i where i: "i < length rs" "rs ! i = None" by (metis in_set_conv_nth)
    show False
    proof (cases "i < length parts - 1")
      case True
      with nth[OF True] ok i show False by (auto simp: parts_def)
    next
      case False
      with i len have "i = length rs - 1" by simp
      moreover have "rs \<noteq> []" using ne len by auto
      ultimately have "last rs = None" using i by (simp add: last_conv_nth)
      with lst show False by simp
    qed
  qed
  then obtain segs where segs: "promiseAll rs = Some segs"
    using promiseAll_None[of rs] by (cases "promiseAll rs") auto
  then have rs_eq: "rs = map Some segs" by (rule promiseAll_Some)
  have 1: "length segs = length parts" using len rs_eq by simp
  have 2: "last segs = last parts" using lst rs_eq ne len by (cases segs rule: rev_cases) auto
  have 3: "p (length (calls s) + i) (trim (parts ! i)) lang = Some (segs ! i)"
    if "i < length parts - 1" for i
    using nth[OF that] rs_eq that 1 by simp
  have tp: "translateParts p lang parts s =
     (rs, s\<lparr>calls := calls s @ map (\<lambda>part. (trim part, lang)) (butlast parts)\<rparr>)"
    using translateParts_state[of p lang parts s] by (simp add: rs_def prod_eq_iff)
  have 4: "translateText p text lang s =
        (Inr (join brand segs),
         s\<lparr>calls := calls s @ map (\<lambda>part. (trim part, lang)) (butlast parts),
           cache := (cache s)(cacheKey lang text \<mapsto> join brand segs)\<rparr>)"
    using brand_in miss tp segs by (simp add: translateText_def parts_def [symmetric])
  from 1 2 3 4 show ?thesis unfolding parts_def by blast
qed

lemma brand_not_Nil: "brand \<noteq> []"
  by (simp add: brand_def)


section \<open>The claims about translateText\<close>

text \<open>
  Claim C1. On a cache miss, for a text whose lower-case form contains the brand token and
  a provider that answers the request for every segment but the last: the text is split at
  every occurrence of the literal token (the segments joined by the token give the text
  back, and no segment contains the token), one request is sent for each segment except
  the last, the answers and the untouched last segment are joined by the literal token, so
  that the result has as many segments as the text and the token stands between the same
  segments, and the joined result is cached under the key of the call and returned.
\<close>

theorem translateText_brand_token:
  assumes "includes_str (toLowerCase text) brand"
    and "cache s (cacheKey lang text) = None"
    and "\<forall>i < length (split brand text) - 1.
            p (length (calls s) + i) (trim (split brand text ! i)) lang \<noteq> None"
  shows "text = join brand (split brand text) \<and>
     (\<forall>part \<in> set (split brand text). \<not> includes_str part brand) \<and>
     (\<exists>segs.
        length segs = length (split brand text) \<and>
        last segs = last (split brand text) \<and>
        (\<forall>i < length (split brand text) - 1.
            p (length (calls s) + i) (trim (split brand text ! i)) lang = Some (segs ! i)) \<and>
        translateText p text lang s =
          (Inr (join brand segs),
           s\<lparr>calls := calls s @ map (\<lambda>part. (trim part, lang)) (butlast (split brand text)),
             cache := (cache s)(cacheKey lang text \<mapsto> join brand segs)\<rparr>))"
  using translateText_split[of "text" s lang p, OF assms] join_split[OF brand_not_Nil, of "text"]
    parts_no_sep[OF brand_not_Nil, of "text"]
  by simp

theorem translateText_brand_token_witness:
  "includes_str (toLowerCase ''Visit evaluating.tools now'') brand \<and>
   cache emptyState (cacheKey ''fr'' ''Visit evaluating.tools now'') = None \<and>
   split brand ''Visit evaluating.tools now'' = [''Visit '', '' now''] \<and>
   translateText echoProvider ''Visit evaluating.tools now'' ''fr'' emptyState =
     (Inr ''[fr]Visitevaluating.tools now'',
      emptyState\<lparr>calls := [(''Visit'', ''fr'')],
        cache := [cacheKey ''fr'' ''Visit evaluating.tools now'' \<mapsto> ''[fr]Visitevaluating.tools now'']\<rparr>)"
proof -
  let ?t = "''Visit evaluating.tools now''"
  have h1: "includes_str (toLowerCase ?t) brand"
    by (simp add: toLowerCase_def lowerChar_def isUpperCase_def brand_def)
  have h2: "cache emptyState (cacheKey ''fr'' ?t) = None"
    by (simp add: emptyState_def)
  have sp: "split brand ?t = [''Visit '', '' now'']"
    by (simp add: brand_def split.simps)
  have h3: "\<forall>i < length (split brand ?t) - 1.
      echoProvider (length (calls emptyState) + i) (trim (split brand ?t ! i)) ''fr'' \<noteq> None"
    by (simp add: echoProvider_def)
  from translateText_brand_token[of ?t emptyState "''fr''" echoProvider, OF h1 h2 h3]
  obtain segs where segs: "length segs = length (split brand ?t)"
      "last segs = last (split brand ?t)"
      "\<forall>i < length (split brand ?t) - 1.
          echoProvider (length (calls emptyState) + i) (trim (split brand ?t ! i)) ''fr'' = Some (segs ! i)"
      "translateText echoProvider ?t ''fr'' emptyState =
          (Inr (join brand segs),
           emptyState\<lparr>calls := calls emptyState @ map (\<lambda>part. (trim part, ''fr'')) (butlast (split brand ?t)),
             cache := (cache emptyState)(cacheKey ''fr'' ?t \<mapsto> join brand segs)\<rparr>)"
    by blast
  from segs(1) sp obtain a b where ab: "segs = [a, b]"
    by (cases segs; cases "tl segs"; auto)
  from segs(2,3) sp ab have "a = ''[fr]Visit''" "b = '' now''"
    by (simp_all add: echoProvider_def trim_def isWhiteSpace_def)
  with segs(4) ab sp have "translateText echoProvider ?t ''fr'' emptyState =
     (Inr ''[fr]Visitevaluating.tools now'',
      emptyState\<lparr>calls := [(''Visit'', ''fr'')],
        cache := [cacheKey ''fr'' ?t \<mapsto> ''[fr]Visitevaluating.tools now'']\<rparr>)"
    by (simp add: brand_def emptyState_def trim_def isWhiteSpace_def)
  with h1 h2 sp show ?thesis by blast
qed

text \<open>
  A failure of the provider outside the brand branch: the text comes back as it was given,
  the error is printed and nothing is cached.
\<close>

lemma translateText_plain_failure:
  assumes "cache s (cacheKey lang text) = None"
    and "\<not> includes_str (toLowerCase text) brand"
    and "p (length (calls s)) (trim text) lang = None"
  shows "translateText p text lang s =
     (Inr text, s\<lparr>calls := calls s @ [(trim text, lang)],
                   log := log s @ [ErrorTranslatingText text lang]\<rparr>)"
  using assms by (simp add: translateText_plain)

text \<open>
  Claim C3, as stated, fails: the texts \<open>'' hi''\<close> and \<open>''hi''\<close> differ in white space at the
  ends only, yet after the first has been translated the second is not found in the cache
  and a second request goes to the provider.
\<close>

theorem translateText_untrimmed_key_counterexample:
  "trim '' hi'' = trim ''hi'' \<and>
   calls (snd (translateText echoProvider ''hi'' ''fr''
                (snd (translateText echoProvider '' hi'' ''fr'' emptyState)))) =
     [(''hi'', ''fr''), (''hi'', ''fr'')]"
  by (simp add: translateText_def translate_def cacheKey_def emptyState_def echoProvider_def
      toLowerCase_def lowerChar_def isUpperCase_def brand_def trim_def isWhiteSpace_def)

text \<open>
  Claim C3, amended. The cache key is the locale, a colon and the text as it was passed,
  white space included. On a hit the cached value is returned and the state is unchanged
  (no request is sent). On a miss of a text without the brand token the trimmed text is
  what the provider receives, and its answer is cached under the key of the text as passed.
\<close>

theorem translateText_cache_key:
  "cacheKey lang text = lang @ '':'' @ text \<and>
   (cache s (cacheKey lang text) = Some v \<longrightarrow> translateText p text lang s = (Inr v, s)) \<and>
   (cache s (cacheKey lang text) = None \<and> \<not> includes_str (toLowerCase text) brand \<and>
    p (length (calls s)) (trim text) lang = Some r \<longrightarrow>
      translateText p text lang s =
        (Inr r, s\<lparr>calls := calls s @ [(trim text, lang)],
                  cache := (cache s)(cacheKey lang text \<mapsto> r)\<rparr>))"
  by (simp add: translateText_hit translateText_plain cacheKey_def)

text \<open>Both cases of the amended claim C3 at the text \<open>'' hi ''\<close>.\<close>

theorem translateText_cache_key_witness:
  "cache (emptyState\<lparr>cache := [cacheKey ''fr'' '' hi '' \<mapsto> ''salut'']\<rparr>) (cacheKey ''fr'' '' hi '') = Some ''salut'' \<and>
   translateText failingProvider '' hi '' ''fr'' (emptyState\<lparr>cache := [cacheKey ''fr'' '' hi '' \<mapsto> ''salut'']\<rparr>) =
     (Inr ''salut'', emptyState\<lparr>cache := [cacheKey ''fr'' '' hi '' \<mapsto> ''salut'']\<rparr>) \<and>
   cache emptyState (cacheKey ''fr'' '' hi '') = None \<and>
   \<not> includes_str (toLowerCase '' hi '') brand \<and>
   echoProvider (length (calls emptyState)) (trim '' hi '') ''fr'' = Some ''[fr]hi'' \<and>
   translateText echoProvider '' hi '' ''fr'' emptyState =
     (Inr ''[fr]hi'', emptyState\<lparr>calls := [(''hi'', ''fr'')], cache := [''fr: hi '' \<mapsto> ''[fr]hi'']\<rparr>)"
proof -
  let ?s = "emptyState\<lparr>cache := [cacheKey ''fr'' '' hi '' \<mapsto> ''salut'']\<rparr>"
  have h1: "cache ?s (cacheKey ''fr'' '' hi '') = Some ''salut''" by simp
  have h2: "cache emptyState (cacheKey ''fr'' '' hi '') = None" by (simp add: emptyState_def)
  have h3: "\<not> includes_str (toLowerCase '' hi '') brand"
    by (simp add: toLowerCase_def lowerChar_def isUpperCase_def brand_def)
  have h4: "echoProvider (length (calls emptyState)) (trim '' hi '') ''fr'' = Some ''[fr]hi''"
    by (simp add: echoProvider_def trim_def isWhiteSpace_def)
  have t: "trim '' hi '' = ''hi''" by (simp add: trim_def isWhiteSpace_def)
  from translateText_cache_key[of "''fr''" "'' hi ''" ?s "''salut''" failingProvider "''''"] h1
  have a: "translateText failingProvider '' hi '' ''fr'' ?s = (Inr ''salut'', ?s)" by blast
  from translateText_cache_key[of "''fr''" "'' hi ''" emptyState "''''" echoProvider "''[fr]hi''"] h2 h3 h4
  have "translateText echoProvider '' hi '' ''fr'' emptyState =
        (Inr ''[fr]hi'', emptyState\<lparr>calls := calls emptyState @ [(trim '' hi '', ''fr'')],
                  cache := (cache emptyState)(cacheKey ''fr'' '' hi '' \<mapsto> ''[fr]hi'')\<rparr>)" by blast
  then have b: "translateText echoProvider '' hi '' ''fr'' emptyState =
     (Inr ''[fr]hi'', emptyState\<lparr>calls := [(''hi'', ''fr'')], cache := [''fr: hi '' \<mapsto> ''[fr]hi'']\<rparr>)"
    by (simp add: t cacheKey_def emptyState_def)
  from h1 h2 h3 h4 a b show ?thesis by blast
qed

text \<open>
  Claim C4 at a failing input: a text with the brand token and a provider that fails. The
  brand branch has no handler, so the promise of \<open>translateText\<close> is rejected: the caller
  gets the exception, not the original text, and nothing is printed.
\<close>

theorem translateText_brand_failure_rejects:
  "translateText failingProvider ''visit evaluating.tools'' ''fr'' emptyState =
     (Inl ProviderError, emptyState\<lparr>calls := [(''visit'', ''fr'')]\<rparr>)"
  by (simp add: translateText_def translate_def cacheKey_def emptyState_def failingProvider_def
      toLowerCase_def lowerChar_def isUpperCase_def brand_def trim_def isWhiteSpace_def split.simps)

text \<open>
  Claim C9, as stated, fails: with a provider that fails, the first call caches nothing and
  the second call sends the request again, two requests in total.
\<close>

theorem translateText_retry_counterexample:
  "calls (snd (translateText failingProvider ''hello'' ''fr''
                (snd (translateText failingProvider ''hello'' ''fr'' emptyState)))) =
     [(''hello'', ''fr''), (''hello'', ''fr'')]"
  by (simp add: translateText_def translate_def cacheKey_def emptyState_def failingProvider_def
      toLowerCase_def lowerChar_def isUpperCase_def brand_def trim_def isWhiteSpace_def)

text \<open>
  Claim C9, amended. If the provider answered every request the first call sent, then the
  first call is fulfilled and the second call with the same arguments is a cache hit: it
  returns the same value and leaves the state, the list of requests included, as it was.
  The first call sends no request on a hit, one request for a text without the brand token,
  and one request for every split segment except the last for a text with it.
\<close>

theorem translateText_second_call_hit:
  assumes first: "translateText p text lang s = (r, s1)"
    and answered: "\<forall>i < length (calls s1) - length (calls s).
        p (length (calls s) + i) (fst (calls s1 ! (length (calls s) + i))) lang \<noteq> None"
  shows "(\<exists>v. r = Inr v \<and> translateText p text lang s1 = (Inr v, s1)) \<and>
     length (calls s1) = length (calls s) +
       (if cache s (cacheKey lang text) \<noteq> None then 0
        else if includes_str (toLowerCase text) brand then length (split brand text) - 1
        else 1)"
proof (cases "cache s (cacheKey lang text)")
  case (Some v)
  with first have "r = Inr v" "s1 = s" by (simp_all add: translateText_hit)
  with Some show ?thesis by (simp add: translateText_hit)
next
  case None
  show ?thesis
  proof (cases "includes_str (toLowerCase text) brand")
    case False
    from first None False
    have c: "calls s1 = calls s @ [(trim text, lang)]"
      by (auto simp: translateText_plain split: option.splits)
    with answered have "p (length (calls s)) (trim text) lang \<noteq> None" by simp
    then obtain v where v: "p (length (calls s)) (trim text) lang = Some v" by blast
    with first None False have "r = Inr v"
      "s1 = s\<lparr>calls := calls s @ [(trim text, lang)], cache := (cache s)(cacheKey lang text \<mapsto> v)\<rparr>"
      by (simp_all add: translateText_plain)
    then show ?thesis using None False by (simp add: translateText_hit)
  next
    case True
    define parts where "parts = split brand text"
    have st: "snd (translateParts p lang parts s) =
        s\<lparr>calls := calls s @ map (\<lambda>part. (trim part, lang)) (butlast parts)\<rparr>"
      by (rule translateParts_state)
    have c: "calls s1 = calls s @ map (\<lambda>part. (trim part, lang)) (butlast parts)"
      using first None True st
      by (auto simp: translateText_def parts_def split: prod.splits option.splits)
    have ok: "\<forall>i < length parts - 1. p (length (calls s) + i) (trim (parts ! i)) lang \<noteq> None"
    proof (intro allI impI)
      fix i assume i: "i < length parts - 1"
      with answered c have "p (length (calls s) + i) (fst (calls s1 ! (length (calls s) + i))) lang \<noteq> None"
        by simp
      moreover have "calls s1 ! (length (calls s) + i) = (trim (parts ! i), lang)"
        using c i by (simp add: nth_append nth_butlast)
      ultimately show "p (length (calls s) + i) (trim (parts ! i)) lang \<noteq> None" by simp
    qed
    from translateText_split[of "text" s lang p, OF True None] ok
    obtain segs where "translateText p text lang s =
        (Inr (join brand segs),
         s\<lparr>calls := calls s @ map (\<lambda>part. (trim part, lang)) (butlast (split brand text)),
           cache := (cache s)(cacheKey lang text \<mapsto> join brand segs)\<rparr>)"
      unfolding parts_def by blast
    with first have "r = Inr (join brand segs)"
      "s1 = s\<lparr>calls := calls s @ map (\<lambda>part. (trim part, lang)) (butlast (split brand text)),
           cache := (cache s)(cacheKey lang text \<mapsto> join brand segs)\<rparr>"
      by simp_all
    then show ?thesis using None True by (simp add: translateText_hit)
  qed
qed

text \<open>The amended claim C9 at the text \<open>''hello''\<close> with a provider that answers.\<close>

theorem translateText_second_call_hit_witness:
  "translateText echoProvider ''hello'' ''fr'' emptyState =
     (Inr ''[fr]hello'', emptyState\<lparr>calls := [(''hello'', ''fr'')], cache := [''fr:hello'' \<mapsto> ''[fr]hello'']\<rparr>) \<and>
   translateText echoProvider ''hello'' ''fr''
       (emptyState\<lparr>calls := [(''hello'', ''fr'')], cache := [''fr:hello'' \<mapsto> ''[fr]hello'']\<rparr>) =
     (Inr ''[fr]hello'', emptyState\<lparr>calls := [(''hello'', ''fr'')], cache := [''fr:hello'' \<mapsto> ''[fr]hello'']\<rparr>)"
proof -
  let ?s1 = "emptyState\<lparr>calls := [(''hello'', ''fr'')], cache := [''fr:hello'' \<mapsto> ''[fr]hello'']\<rparr>"
  have first: "translateText echoProvider ''hello'' ''fr'' emptyState = (Inr ''[fr]hello'', ?s1)"
    by (simp add: translateText_def translate_def cacheKey_def emptyState_def echoProvider_def
      toLowerCase_def lowerChar_def isUpperCase_def brand_def trim_def isWhiteSpace_def)
  have answered: "\<forall>i < length (calls ?s1) - length (calls emptyState).
        echoProvider (length (calls emptyState) + i) (fst (calls ?s1 ! (length (calls emptyState) + i))) ''fr'' \<noteq> None"
    by (simp add: echoProvider_def)
  from translateText_second_call_hit[OF first answered]
  have "translateText echoProvider ''hello'' ''fr'' ?s1 = (Inr ''[fr]hello'', ?s1)" by blast
  with first show ?thesis by blast
qed

text \<open>
  Claim C10. For a text whose lower-case form contains the brand token while the text itself
  does not contain the literal token, no request is sent to the provider; on a cache miss
  (the branch is not reached otherwise) the text is returned as it was passed and is
  cached under the key of the call.
\<close>

theorem translateText_other_letter_case:
  assumes "includes_str (toLowerCase text) brand"
    and "\<not> includes_str text brand"
  shows "calls (snd (translateText p text lang s)) = calls s \<and>
     (cache s (cacheKey lang text) = None \<longrightarrow>
        translateText p text lang s =
          (Inr text, s\<lparr>cache := (cache s)(cacheKey lang text \<mapsto> text)\<rparr>))"
proof -
  have sp: "split brand text = [text]" using assms(2) by (rule split_no_sep)
  show ?thesis using assms(1) sp
    by (auto simp: translateText_def split: option.splits)
qed

text \<open>Claim C10 at the text \<open>''Evaluating.Tools rocks''\<close>, with a provider that would fail.\<close>

theorem translateText_other_letter_case_witness:
  "includes_str (toLowerCase ''Evaluating.Tools rocks'') brand \<and>
   \<not> includes_str ''Evaluating.Tools rocks'' brand \<and>
   cache emptyState (cacheKey ''fr'' ''Evaluating.Tools rocks'') = None \<and>
   translateText failingProvider ''Evaluating.Tools rocks'' ''fr'' emptyState =
     (Inr ''Evaluating.Tools rocks'',
      emptyState\<lparr>cache := [cacheKey ''fr'' ''Evaluating.Tools rocks'' \<mapsto> ''Evaluating.Tools rocks'']\<rparr>)"
proof -
  let ?t = "''Evaluating.Tools rocks''"
  have h1: "includes_str (toLowerCase ?t) brand"
    by (simp add: toLowerCase_def lowerChar_def isUpperCase_def brand_def)
  have h2: "\<not> includes_str ?t brand" by (simp add: brand_def)
  have h3: "cache emptyState (cacheKey ''fr'' ?t) = None" by (simp add: emptyState_def)
  from translateText_other_letter_case[OF h1 h2, of failingProvider "''fr''" emptyState] h3
  have "translateText failingProvider ?t ''fr'' emptyState =
     (Inr ?t, emptyState\<lparr>cache := (cache emptyState)(cacheKey ''fr'' ?t \<mapsto> ?t)\<rparr>)" by blast
  then have "translateText failingProvider ?t ''fr'' emptyState =
     (Inr ?t, emptyState\<lparr>cache := [cacheKey ''fr'' ?t \<mapsto> ?t]\<rparr>)"
    by (simp add: emptyState_def)
  with h1 h2 h3 show ?thesis by blast
qed

section \<open>Properties of the canonical URL and of replace\<close>

lemma dropWhile_replicate_append:
  "P x \<Longrightarrow> dropWhile P (replicate n x @ ys) = dropWhile P ys"
  by (induction n) auto

lemma stripTrailingSlashes_eq:
  assumes "s = c @ replicate n (CHR ''/'')" and "c = [] \<or> last c \<noteq> CHR ''/''"
  shows "stripTrailingSlashes s = c"
proof -
  have "dropWhile (\<lambda>x. x = CHR ''/'') (replicate n (CHR ''/'') @ rev c) = rev c"
  proof (cases c rule: rev_cases)
    case Nil
    then show ?thesis by (simp add: dropWhile_replicate_append)
  next
    case (snoc ys y)
    with assms(2) have "y \<noteq> CHR ''/''" by simp
    with snoc show ?thesis by (simp add: dropWhile_replicate_append)
  qed
  then show ?thesis using assms(1) by (simp add: stripTrailingSlashes_def)
qed

lemma stripLeadingDots_eq:
  assumes "s = replicate m (CHR ''.'') @ c" and "c = [] \<or> hd c \<noteq> CHR ''.''"
  shows "stripLeadingDots s = c"
proof (cases c)
  case Nil
  with assms(1) show ?thesis by (simp add: stripLeadingDots_def dropWhile_replicate_append[of _ _ _ "[]", simplified])
next
  case (Cons x xs)
  with assms(2) have "x \<noteq> CHR ''.''" by simp
  with Cons assms(1) show ?thesis by (simp add: stripLeadingDots_def dropWhile_replicate_append)
qed

lemma firstOccurrence_Some:
  "firstOccurrence pat s = Some (pre, post) \<Longrightarrow>
     s = pre @ pat @ post \<and> (\<forall>i < length pre. \<not> prefix pat (drop i s))"
proof (induction s arbitrary: pre post)
  case Nil
  then show ?case by (auto split: if_splits)
next
  case (Cons c cs)
  show ?case
  proof (cases "prefix pat (c # cs)")
    case True
    with Cons.prems show ?thesis by (auto simp: prefix_def)
  next
    case False
    with Cons.prems obtain pre' where f: "firstOccurrence pat cs = Some (pre', post)" "pre = c # pre'"
      by (auto split: option.splits)
    from Cons.IH[OF f(1)] have ih: "cs = pre' @ pat @ post" "\<forall>i < length pre'. \<not> prefix pat (drop i cs)"
      by auto
    have "\<not> prefix pat (drop i (c # cs))" if "i < length pre" for i
    proof (cases i)
      case 0
      then show ?thesis using False by simp
    next
      case (Suc j)
      with that f(2) have "j < length pre'" by simp
      with ih(2) Suc show ?thesis by simp
    qed
    with ih(1) f(2) show ?thesis by simp
  qed
qed

lemma firstOccurrence_None: "firstOccurrence pat s = None \<longleftrightarrow> \<not> includes_str s pat"
  by (induction s) (auto split: option.splits)

lemma getSubstitution_plain:
  "CHR ''$'' \<notin> set r \<Longrightarrow> getSubstitution matched pre post r = r"
  by (induction matched pre post r rule: getSubstitution.induct) auto

lemma replace_first:
  "CHR ''$'' \<notin> set r \<Longrightarrow>
   replace s pat r = (case firstOccurrence pat s of None \<Rightarrow> s | Some (pre, post) \<Rightarrow> pre @ r @ post)"
  by (simp add: replace_def getSubstitution_plain split: option.splits)

lemma map_of_setAttr: "map_of (setAttr name v as) name = Some v"
  by (induction as) auto

lemma map_of_setAttr_other: "n \<noteq> name \<Longrightarrow> map_of (setAttr name v as) n = map_of as n"
  by (induction as) auto

lemma getAttribute_setAttribute:
  "isElement el \<Longrightarrow> getAttribute (setAttribute name v el) name = Some v"
  by (cases el) (simp_all add: map_of_setAttr)

lemma getAttribute_setTextContent [simp]:
  "getAttribute (setTextContent v el) name = getAttribute el name"
  by (cases el) simp_all

lemma getAttribute_setChildNodes [simp]:
  "getAttribute (setChildNodes ks el) name = getAttribute el name"
  by (cases el) simp_all

lemma getAttribute_Some_isElement: "getAttribute el name = Some v \<Longrightarrow> isElement el"
  by (cases el) simp_all

lemma href_after_replace:
  assumes "CHR ''$'' \<notin> set lang"
    and "getAttribute element ''href'' = Some href"
    and "includes_str href ''/en/''"
  shows "\<exists>pre post. href = pre @ ''/en/'' @ post \<and>
           (\<forall>i < length pre. \<not> prefix ''/en/'' (drop i href)) \<and>
           getAttribute (setAttribute ''href'' (replace href ''/en/'' (''/'' @ lang @ ''/'')) element)
             ''href'' = Some (pre @ ''/'' @ lang @ ''/'' @ post)"
proof -
  from assms(2) have el: "isElement element" by (rule getAttribute_Some_isElement)
  have d: "CHR ''$'' \<notin> set (''/'' @ lang @ ''/'')" using assms(1) by simp
  from assms(3) obtain pre post where f: "firstOccurrence ''/en/'' href = Some (pre, post)"
    using firstOccurrence_None[of "''/en/''" href] by (cases "firstOccurrence ''/en/'' href") auto
  from firstOccurrence_Some[OF f]
  have dec: "href = pre @ ''/en/'' @ post \<and> (\<forall>i < length pre. \<not> prefix ''/en/'' (drop i href))"
    by blast
  have rep: "replace href ''/en/'' (''/'' @ lang @ ''/'') = pre @ ''/'' @ lang @ ''/'' @ post"
    using replace_first[OF d, of href "''/en/''"] f by simp
  have "getAttribute (setAttribute ''href'' (pre @ ''/'' @ lang @ ''/'' @ post) element) ''href'' =
        Some (pre @ ''/'' @ lang @ ''/'' @ post)"
    using el by (rule getAttribute_setAttribute)
  with dec show ?thesis unfolding rep by blast
qed

lemma translateElementText_part000_attr:
  "translateElementText_part000 p el lang s = (Inr el', s') \<Longrightarrow>
   getAttribute el' name = getAttribute el name"
  by (auto simp: translateElementText_part000_def Let_def split: if_splits prod.splits sum.splits)

section \<open>The claims about URLs and links\<close>

text \<open>
  Claim C5, as stated, fails for \<open>constructCanonicalUrl\<close>: a cleaned path that ends in
  \<open>.html\<close> gets no closing slash, and a leading dot segment is kept.
\<close>

theorem canonical_url_counterexample:
  "constructCanonicalUrl ''docs.html'' ''fr'' = ''https://evaluating.tools/fr/docs.html'' \<and>
   constructCanonicalUrl ''./a'' ''fr'' = ''https://evaluating.tools/fr/./a/''"
  by (simp add: constructCanonicalUrl_def stripTrailingSlashes_def normalizeSeparators_def
      endsWith_def suffix_def)

text \<open>
  Claim C5, amended. \<open>constructCanonicalUrl\<close> turns backslashes into slashes and removes
  all trailing slashes, nothing else; for the cleaned path \<open>c\<close> the URL is
  \<open>https://evaluating.tools/{lang}/\<close> when \<open>c\<close> is \<open>.\<close> or empty,
  \<open>https://evaluating.tools/{lang}/{c}\<close> when \<open>c\<close> ends in \<open>.html\<close>, and
  \<open>https://evaluating.tools/{lang}/{c}/\<close> otherwise. The second script removes all trailing
  slashes and then all leading dots; for the cleaned path \<open>c'\<close> the URL is
  \<open>https://evaluating.tools/{lang}/\<close> when \<open>c'\<close> is empty and
  \<open>https://evaluating.tools/{lang}/{c'}/\<close> otherwise. Both give the root URL for \<open>.\<close> and
  for the empty path, and \<open>https://evaluating.tools/{lang}/a/b/\<close> for \<open>a/b\<close>.
\<close>

theorem canonical_url:
  "(normalizeSeparators relativePath = c @ replicate n (CHR ''/'') \<and> (c = [] \<or> last c \<noteq> CHR ''/'') \<longrightarrow>
      constructCanonicalUrl relativePath lang =
        (if c = ''.'' \<or> c = [] then ''https://evaluating.tools/'' @ lang @ ''/''
         else if endsWith c ''.html'' then ''https://evaluating.tools/'' @ lang @ ''/'' @ c
         else ''https://evaluating.tools/'' @ lang @ ''/'' @ c @ ''/'')) \<and>
   (relativePath = replicate m (CHR ''.'') @ c' @ replicate n' (CHR ''/'') \<and>
    (c' = [] \<or> hd c' \<noteq> CHR ''.'' \<and> last c' \<noteq> CHR ''/'') \<longrightarrow>
      canonicalUrl_part000 relativePath lang =
        (if c' = [] then ''https://evaluating.tools/'' @ lang @ ''/''
         else ''https://evaluating.tools/'' @ lang @ ''/'' @ c' @ ''/'')) \<and>
   constructCanonicalUrl ''.'' lang = ''https://evaluating.tools/'' @ lang @ ''/'' \<and>
   constructCanonicalUrl '''' lang = ''https://evaluating.tools/'' @ lang @ ''/'' \<and>
   canonicalUrl_part000 ''.'' lang = ''https://evaluating.tools/'' @ lang @ ''/'' \<and>
   canonicalUrl_part000 '''' lang = ''https://evaluating.tools/'' @ lang @ ''/'' \<and>
   constructCanonicalUrl ''a/b'' lang = ''https://evaluating.tools/'' @ lang @ ''/a/b/'' \<and>
   canonicalUrl_part000 ''a/b'' lang = ''https://evaluating.tools/'' @ lang @ ''/a/b/''"
proof -
  have 1: "constructCanonicalUrl relativePath lang =
        (if c = ''.'' \<or> c = [] then ''https://evaluating.tools/'' @ lang @ ''/''
         else if endsWith c ''.html'' then ''https://evaluating.tools/'' @ lang @ ''/'' @ c
         else ''https://evaluating.tools/'' @ lang @ ''/'' @ c @ ''/'')"
    if "normalizeSeparators relativePath = c @ replicate n (CHR ''/'')" "c = [] \<or> last c \<noteq> CHR ''/''"
    using stripTrailingSlashes_eq[OF that] by (simp add: constructCanonicalUrl_def)
  have 2: "canonicalUrl_part000 relativePath lang =
        (if c' = [] then ''https://evaluating.tools/'' @ lang @ ''/''
         else ''https://evaluating.tools/'' @ lang @ ''/'' @ c' @ ''/'')"
    if eq: "relativePath = replicate m (CHR ''.'') @ c' @ replicate n' (CHR ''/'')"
      and c': "c' = [] \<or> hd c' \<noteq> CHR ''.'' \<and> last c' \<noteq> CHR ''/''"
  proof -
    have a: "stripTrailingSlashes relativePath =
        (if c' = [] \<and> m = 0 then [] else replicate m (CHR ''.'') @ c')"
    proof (cases "c' = [] \<and> m = 0")
      case True
      then show ?thesis using eq stripTrailingSlashes_eq[of relativePath "[]" n'] by simp
    next
      case False
      have "relativePath = (replicate m (CHR ''.'') @ c') @ replicate n' (CHR ''/'')"
        using eq by simp
      moreover have "replicate m (CHR ''.'') @ c' = [] \<or> last (replicate m (CHR ''.'') @ c') \<noteq> CHR ''/''"
        using False c' by (cases "c' = []") auto
      ultimately show ?thesis using False stripTrailingSlashes_eq by metis
    qed
    have b: "stripLeadingDots (stripTrailingSlashes relativePath) = c'"
    proof (cases "c' = [] \<and> m = 0")
      case True
      then show ?thesis using a by (simp add: stripLeadingDots_def)
    next
      case False
      then show ?thesis using a c' stripLeadingDots_eq[of "replicate m (CHR ''.'') @ c'" m c'] by auto
    qed
    have "c' \<noteq> ''.''" using c' by auto
    then show ?thesis using b by (simp add: canonicalUrl_part000_def)
  qed
  have 3: "constructCanonicalUrl ''.'' lang = ''https://evaluating.tools/'' @ lang @ ''/''"
    "constructCanonicalUrl '''' lang = ''https://evaluating.tools/'' @ lang @ ''/''"
    "constructCanonicalUrl ''a/b'' lang = ''https://evaluating.tools/'' @ lang @ ''/a/b/''"
    by (simp_all add: constructCanonicalUrl_def stripTrailingSlashes_def normalizeSeparators_def
      endsWith_def suffix_def)
  have 4: "canonicalUrl_part000 ''.'' lang = ''https://evaluating.tools/'' @ lang @ ''/''"
    "canonicalUrl_part000 '''' lang = ''https://evaluating.tools/'' @ lang @ ''/''"
    "canonicalUrl_part000 ''a/b'' lang = ''https://evaluating.tools/'' @ lang @ ''/a/b/''"
    by (simp_all add: canonicalUrl_part000_def stripTrailingSlashes_def stripLeadingDots_def)
  from 1 2 3 4 show ?thesis by blast
qed

text \<open>The amended claim C5 at a path with a backslash and at one with leading dots.\<close>

theorem canonical_url_witness:
  "normalizeSeparators (''docs'' @ [CHR 0x5C] @ ''guide//'') = ''docs/guide'' @ replicate 2 (CHR ''/'') \<and>
   constructCanonicalUrl (''docs'' @ [CHR 0x5C] @ ''guide//'') ''fr'' = ''https://evaluating.tools/fr/docs/guide/'' \<and>
   ''..docs/guide//'' = replicate 2 (CHR ''.'') @ ''docs/guide'' @ replicate 2 (CHR ''/'') \<and>
   canonicalUrl_part000 ''..docs/guide//'' ''fr'' = ''https://evaluating.tools/fr/docs/guide/''"
proof -
  let ?r = "''docs'' @ [CHR 0x5C] @ ''guide//''"
  have h1: "normalizeSeparators ?r = ''docs/guide'' @ replicate 2 (CHR ''/'')"
    by (simp add: normalizeSeparators_def numeral_2_eq_2)
  have h2: "''docs/guide'' = [] \<or> last ''docs/guide'' \<noteq> CHR ''/''" by simp
  have h3: "''..docs/guide//'' = replicate 2 (CHR ''.'') @ ''docs/guide'' @ replicate 2 (CHR ''/'')"
    by (simp add: numeral_2_eq_2)
  have h4: "''docs/guide'' = [] \<or> hd ''docs/guide'' \<noteq> CHR ''.'' \<and> last ''docs/guide'' \<noteq> CHR ''/''"
    by simp
  have e: "\<not> endsWith ''docs/guide'' ''.html''" by (simp add: endsWith_def suffix_def)
  from canonical_url[of ?r "''docs/guide''" 2 "''fr''" 0 "[]" 0] h1 h2 e
  have a: "constructCanonicalUrl ?r ''fr'' = ''https://evaluating.tools/fr/docs/guide/''"
    by simp
  from canonical_url[of "''..docs/guide//''" "[]" 0 "''fr''" 2 "''docs/guide''" 2] h3 h4
  have b: "canonicalUrl_part000 ''..docs/guide//'' ''fr'' = ''https://evaluating.tools/fr/docs/guide/''"
    by simp
  from a b h1 h3 show ?thesis by blast
qed

text \<open>
  Claim C7, as stated, fails: of two occurrences of \<open>/en/\<close> in the link only the first is
  replaced.
\<close>

theorem anchor_href_all_occurrences_counterexample:
  "translateAnchorElement failingProvider (Element 0 ''a'' [(''href'', ''/en/docs/en/x'')] []) ''fr'' emptyState =
     (Inr (Element 0 ''a'' [(''href'', ''/fr/docs/en/x'')] []), emptyState)"
  by (simp add: translateAnchorElement_def replace_def trim_def)

text \<open>
  Claim C7, amended. For a locale code without a dollar sign, when \<open>translateAnchorElement\<close>
  of \<open>index.js\<close>, or the loop body of the second script on an anchor, has run to its end:
  an anchor without \<open>href\<close> still has none; a \<open>href\<close> that does not contain \<open>/en/\<close> is
  unchanged; in a \<open>href\<close> that contains \<open>/en/\<close> the first occurrence, and only the first,
  has been replaced by \<open>/{lang}/\<close>.
\<close>

theorem anchor_href_first_occurrence:
  assumes "CHR ''$'' \<notin> set lang"
    and "translateAnchorElement p element lang s = (Inr element', s') \<or>
         tagName element = ''a'' \<and> translateElement_part000 p element lang s = (Inr element', s')"
  shows "case getAttribute element ''href'' of
           None \<Rightarrow> getAttribute element' ''href'' = None
         | Some href \<Rightarrow>
             if includes_str href ''/en/''
             then \<exists>pre post. href = pre @ ''/en/'' @ post \<and>
                    (\<forall>i < length pre. \<not> prefix ''/en/'' (drop i href)) \<and>
                    getAttribute element' ''href'' = Some (pre @ ''/'' @ lang @ ''/'' @ post)
             else getAttribute element' ''href'' = Some href"
proof -
  define element1 where "element1 =
     (case getAttribute element ''href'' of
        None \<Rightarrow> element
      | Some href \<Rightarrow>
          if includes_str href ''/en/''
          then setAttribute ''href'' (replace href ''/en/'' (''/'' @ lang @ ''/'')) element
          else element)"
  have after: "getAttribute element' ''href'' = getAttribute element1 ''href''"
    using assms(2)
  proof
    assume a: "translateAnchorElement p element lang s = (Inr element', s')"
    have e1: "(case getAttribute element ''href'' of
           None \<Rightarrow> element
         | Some originalHref \<Rightarrow>
             if originalHref \<noteq> [] \<and> includes_str originalHref ''/en/''
             then setAttribute ''href'' (replace originalHref ''/en/'' (''/'' @ lang @ ''/'')) element
             else element) = element1"
      unfolding element1_def by (auto split: option.splits)
    from a show ?thesis
      unfolding translateAnchorElement_def e1 Let_def
      by (auto split: if_splits prod.splits sum.splits)
  next
    assume b: "tagName element = ''a'' \<and> translateElement_part000 p element lang s = (Inr element', s')"
    have "\<exists>element0. getAttribute element0 ''href'' = getAttribute element ''href'' \<and>
            element' = updateHref_part000 lang element0"
    proof (cases "children element \<noteq> []")
      case True
      with b obtain ks where "element' = updateHref_part000 lang (setChildNodes ks element)"
        by (auto simp: translateElement_part000_def split: prod.splits sum.splits)
      moreover have "getAttribute (setChildNodes ks element) ''href'' = getAttribute element ''href''"
        by simp
      ultimately show ?thesis by blast
    next
      case False
      with b obtain x where x: "translateElementText_part000 p element lang s = (Inr x, s')"
        "element' = updateHref_part000 lang x"
        by (auto simp: translateElement_part000_def split: prod.splits sum.splits)
      from translateElementText_part000_attr[OF x(1)] x(2) show ?thesis by blast
    qed
    then obtain element0 where
      e0: "getAttribute element0 ''href'' = getAttribute element ''href''"
      and r: "element' = updateHref_part000 lang element0"
      by blast
    show ?thesis
    proof (cases "getAttribute element ''href''")
      case None
      with e0 r show ?thesis by (simp add: updateHref_part000_def element1_def)
    next
      case (Some href)
      show ?thesis
      proof (cases "includes_str href ''/en/''")
        case False
        with Some e0 r show ?thesis by (simp add: updateHref_part000_def element1_def)
      next
        case True
        from Some have el: "isElement element" by (rule getAttribute_Some_isElement)
        from Some e0 have el0: "isElement element0" by (simp add: getAttribute_Some_isElement)
        from Some True e0 r el el0 show ?thesis
          by (simp add: updateHref_part000_def element1_def getAttribute_setAttribute
              del: includes_str.simps)
      qed
    qed
  qed
  show ?thesis
  proof (cases "getAttribute element ''href''")
    case None
    then show ?thesis using after by (simp add: element1_def)
  next
    case (Some href)
    show ?thesis
    proof (cases "includes_str href ''/en/''")
      case False
      with Some after show ?thesis by (simp add: element1_def)
    next
      case True
      from href_after_replace[OF assms(1) Some True] Some True after
      show ?thesis by (simp add: element1_def del: includes_str.simps)
    qed
  qed
qed

text \<open>The amended claim C7 at a link with two occurrences of \<open>/en/\<close>.\<close>

theorem anchor_href_first_occurrence_witness:
  "getAttribute (Element 0 ''a'' [(''href'', ''/en/docs/en/x'')] []) ''href'' = Some ''/en/docs/en/x'' \<and>
   includes_str ''/en/docs/en/x'' ''/en/'' \<and>
   translateAnchorElement failingProvider (Element 0 ''a'' [(''href'', ''/en/docs/en/x'')] []) ''fr'' emptyState =
     (Inr (Element 0 ''a'' [(''href'', ''/fr/docs/en/x'')] []), emptyState) \<and>
   (\<exists>pre post. ''/en/docs/en/x'' = pre @ ''/en/'' @ post \<and>
      (\<forall>i < length pre. \<not> prefix ''/en/'' (drop i ''/en/docs/en/x'')) \<and>
      getAttribute (Element 0 ''a'' [(''href'', ''/fr/docs/en/x'')] []) ''href'' =
        Some (pre @ ''/'' @ ''fr'' @ ''/'' @ post))"
proof -
  let ?a = "Element 0 ''a'' [(''href'', ''/en/docs/en/x'')] []"
  let ?a' = "Element 0 ''a'' [(''href'', ''/fr/docs/en/x'')] []"
  have h0: "CHR ''$'' \<notin> set ''fr''" by simp
  have h1: "translateAnchorElement failingProvider ?a ''fr'' emptyState = (Inr ?a', emptyState)"
    by (simp add: translateAnchorElement_def replace_def trim_def)
  then have h2: "translateAnchorElement failingProvider ?a ''fr'' emptyState = (Inr ?a', emptyState) \<or>
         tagName ?a = ''a'' \<and> translateElement_part000 failingProvider ?a ''fr'' emptyState = (Inr ?a', emptyState)"
    by (rule disjI1)
  have g: "getAttribute ?a ''href'' = Some ''/en/docs/en/x''" by simp
  have i: "includes_str ''/en/docs/en/x'' ''/en/''" by simp
  from anchor_href_first_occurrence[OF h0 h2] g i
  have "\<exists>pre post. ''/en/docs/en/x'' = pre @ ''/en/'' @ post \<and>
      (\<forall>i < length pre. \<not> prefix ''/en/'' (drop i ''/en/docs/en/x'')) \<and>
      getAttribute ?a' ''href'' = Some (pre @ ''/'' @ ''fr'' @ ''/'' @ post)"
    by (simp del: includes_str.simps getAttribute.simps)
  with g i h1 show ?thesis by blast
qed


section \<open>Properties of the element functions and of translateHTML\<close>

lemma toLowerCase_brand: "toLowerCase brand = brand"
  by (simp add: toLowerCase_def lowerChar_def isUpperCase_def brand_def)

lemma includes_str_toLowerCase:
  "includes_str s sub \<Longrightarrow> includes_str (toLowerCase s) (toLowerCase sub)"
  unfolding includes_str_iff toLowerCase_def by (metis map_append)

lemma translateElementText_part000_skip:
  assumes "trim (textContent element) = [] \<or>
           startsWith (trim (textContent element)) [CHR 0xA9] \<or>
           includes_str (trim (textContent element)) brand"
  shows "translateElementText_part000 p element lang s = (Inr element, s)"
proof -
  have "includes_str (toLowerCase (trim (textContent element))) brand"
    if "includes_str (trim (textContent element)) brand"
    using includes_str_toLowerCase[OF that] by (simp add: toLowerCase_brand)
  with assms show ?thesis
    by (auto simp: translateElementText_part000_def Let_def)
qed

text \<open>
  Nothing but \<open>writeOutput\<close> touches the files: whatever a step of the \<open>try\<close> block does,
  and however it ends, the files written so far are those of before.
\<close>

lemma translate_files [simp]: "files (snd (translate p text lang s)) = files s"
  by (simp add: translate_def)

lemma translateParts_files [simp]: "files (snd (translateParts p lang parts s)) = files s"
  by (simp add: translateParts_state)

lemma translateText_files [simp]: "files (snd (translateText p text lang s)) = files s"
proof -
  have "files (snd (case translateParts p lang parts s of
               (rs, s1) \<Rightarrow>
                 (case promiseAll rs of
                    None \<Rightarrow> (Inl ProviderError, s1)
                  | Some translatedParts \<Rightarrow>
                      (Inr (join brand translatedParts),
                       s1\<lparr>cache := (cache s1)(k \<mapsto> join brand translatedParts)\<rparr>)))) = files s"
    for parts k
    using translateParts_files[of p lang parts s]
    by (cases "translateParts p lang parts s") (auto split: option.splits)
  then show ?thesis
    by (auto simp: translateText_def translate_def split: option.splits)
qed

lemma translateText_files': "translateText p text lang s = (r, s1) \<Longrightarrow> files s1 = files s"
  using translateText_files[of p "text" lang s] by simp

lemma translateText_nullable_files:
  "translateText_nullable p text lang s = (r, s1) \<Longrightarrow> files s1 = files s"
  by (auto simp: translateText_nullable_def translateText_files' split: option.splits)

lemma translateChildNodes_files:
  "translateChildNodes p lang ks s = (r, s1) \<Longrightarrow> files s1 = files s"
proof (induction p lang ks s arbitrary: r s1 rule: translateChildNodes.induct)
  case (2 p lang v ks s)
  obtain r0 s0 where t: "translateText p (trim v) lang s = (r0, s0)" by (cases "translateText p (trim v) lang s")
  then have f0: "files s0 = files s" by (rule translateText_files')
  show ?case
  proof (cases r0)
    case (Inl e)
    with 2(2) t f0 show ?thesis by simp
  next
    case (Inr tt)
    obtain r1 s2 where c: "translateChildNodes p lang ks s0 = (r1, s2)"
      by (cases "translateChildNodes p lang ks s0")
    from 2(1)[OF t[symmetric] Inr c] have "files s2 = files s0" .
    with 2(2) t Inr c f0 show ?thesis by (auto split: prod.splits)
  qed
next
  case (3 p lang i tag as cs ks s)
  then show ?case by (auto split: prod.splits)
qed simp

lemma translateElementText_files:
  "translateElementText p element lang s = (r, s1) \<Longrightarrow> files s1 = files s"
  by (auto simp: translateElementText_def
      dest: translateChildNodes_files translateText_files'
      split: if_splits prod.splits option.splits sum.splits)

lemma translateAnchorElement_files:
  "translateAnchorElement p element lang s = (r, s1) \<Longrightarrow> files s1 = files s"
  by (auto simp: translateAnchorElement_def Let_def
      dest: translateText_files'
      split: if_splits prod.splits option.splits sum.splits)

lemma processElements_files:
  "processElements p lang ids forest s = (r, s1) \<Longrightarrow> files s1 = files s"
proof (induction ids arbitrary: forest s)
  case Nil
  then show ?case by simp
next
  case (Cons i ids)
  show ?case
  proof (cases "findNode i forest")
    case None
    with Cons show ?thesis by simp
  next
    case (Some element)
    show ?thesis
    proof (cases "tagName element = ''a''")
      case True
      obtain r0 s0 where a: "translateAnchorElement p element lang s = (r0, s0)"
        by (cases "translateAnchorElement p element lang s")
      then have f0: "files s0 = files s" by (rule translateAnchorElement_files)
      show ?thesis
      proof (cases r0)
        case (Inl e)
        with Cons.prems Some True a f0 show ?thesis by simp
      next
        case (Inr element')
        with Cons.prems Some True a
        have "processElements p lang ids
               (map (updateNode i (\<lambda>_. element')) forest @ detached element element') s0 = (r, s1)"
          by simp
        from Cons.IH[OF this] f0 show ?thesis by simp
      qed
    next
      case False
      obtain element' s0 where a: "translateElementText p element lang s = (element', s0)"
        by (cases "translateElementText p element lang s")
      then have f0: "files s0 = files s" by (rule translateElementText_files)
      from Cons.prems Some False a
      have "processElements p lang ids
               (map (updateNode i (\<lambda>_. element')) forest @ detached element element') s0 = (r, s1)"
        by simp
      from Cons.IH[OF this] f0 show ?thesis by simp
    qed
  qed
qed

lemma runSteps_files:
  assumes "\<forall>f \<in> set fs. \<forall>doc s r s1. f doc s = (r, s1) \<longrightarrow> files s1 = files s"
    and "runSteps fs doc s = (r, s1)"
  shows "files s1 = files s"
  using assms
proof (induction fs arbitrary: doc s)
  case Nil
  then show ?case by simp
next
  case (Cons f fs)
  obtain r0 s0 where a: "f doc s = (r0, s0)" by (cases "f doc s")
  have f0: "files s0 = files s" using Cons.prems(1) a by auto
  have rest: "\<forall>f \<in> set fs. \<forall>doc s r s1. f doc s = (r, s1) \<longrightarrow> files s1 = files s"
    using Cons.prems(1) by simp
  show ?case
  proof (cases r0)
    case (Inl e)
    with Cons.prems(2) a f0 show ?thesis by simp
  next
    case (Inr doc1)
    with Cons.prems(2) a have "runSteps fs doc1 s0 = (r, s1)" by simp
    from Cons.IH[OF rest this] f0 show ?thesis by simp
  qed
qed

lemma setHtmlLang_files: "setHtmlLang lang doc s = (r, s1) \<Longrightarrow> files s1 = files s"
  by (auto simp: setHtmlLang_def split: option.splits)

lemma setCanonicalLink_files: "setCanonicalLink relativePath lang doc s = (r, s1) \<Longrightarrow> files s1 = files s"
  by (auto simp: setCanonicalLink_def split: option.splits sum.splits)

lemma translateMetaContent_files:
  "translateMetaContent p sel lang doc s = (r, s1) \<Longrightarrow> files s1 = files s"
  by (auto simp: translateMetaContent_def dest: translateText_nullable_files
      split: option.splits sum.splits prod.splits)

lemma setMetaOgUrl_files: "setMetaOgUrl relativePath lang doc s = (r, s1) \<Longrightarrow> files s1 = files s"
  by (auto simp: setMetaOgUrl_def split: option.splits)

lemma translateElements_files: "translateElements p lang doc s = (r, s1) \<Longrightarrow> files s1 = files s"
  by (auto simp: translateElements_def dest: processElements_files
      split: sum.splits prod.splits)

lemma translateDocument_failure_files:
  assumes "translateDocument p writable content filePath relativePath lang s = (Inl e, s1)"
  shows "files s1 = files s"
proof -
  let ?steps = "[setHtmlLang lang,
              setCanonicalLink relativePath lang,
              translateMetaContent p (''meta'', [(''property'', ''og:title'')]) lang,
              translateMetaContent p (''meta'', [(''property'', ''og:description'')]) lang,
              setMetaOgUrl relativePath lang,
              translateMetaContent p (''meta'', [(''name'', ''title'')]) lang,
              translateMetaContent p (''meta'', [(''name'', ''description'')]) lang,
              translateElements p lang]"
  obtain r0 s0 where a: "runSteps ?steps (JSDOM content) s = (r0, s0)"
    by (cases "runSteps ?steps (JSDOM content) s")
  have "files s0 = files s"
  proof (rule runSteps_files[OF _ a])
    show "\<forall>f \<in> set ?steps. \<forall>doc s r s1. f doc s = (r, s1) \<longrightarrow> files s1 = files s"
      by (auto dest: setHtmlLang_files setCanonicalLink_files translateMetaContent_files
          setMetaOgUrl_files translateElements_files)
  qed
  with assms a show ?thesis
    by (cases r0) (auto simp: translateDocument_def writeOutput_def Let_def split: if_splits)
qed

lemma translateLanguages_append:
  "translateLanguages p writable content filePath relativePath (ls1 @ ls2) s =
   translateLanguages p writable content filePath relativePath ls2
     (translateLanguages p writable content filePath relativePath ls1 s)"
  by (induction ls1 arbitrary: s) (auto split: prod.splits sum.splits)

lemma translateElementText_part000_files:
  "translateElementText_part000 p element lang s = (r, s1) \<Longrightarrow> files s1 = files s"
  by (auto simp: translateElementText_part000_def Let_def dest: translateText_files'
      split: if_splits prod.splits sum.splits)

lemma translateChildren_files:
  "translateChildren p lang ks s = (r, s1) \<Longrightarrow> files s1 = files s"
proof (induction p lang ks s arbitrary: r s1 rule: translateChildren.induct)
  case (1 p lang s)
  then show ?case by simp
next
  case (2 p lang v ks s)
  then show ?case by (auto split: prod.splits sum.splits)
next
  case (3 p lang i tag as cs ks s)
  obtain r0 s0 where t: "translateElementText_part000 p (Element i tag as cs) lang s = (r0, s0)"
    by (cases "translateElementText_part000 p (Element i tag as cs) lang s")
  then have f0: "files s0 = files s" by (rule translateElementText_part000_files)
  show ?case
  proof (cases r0)
    case (Inl e)
    with 3(2) t f0 show ?thesis by simp
  next
    case (Inr child)
    obtain r1 s2 where c: "translateChildren p lang ks s0 = (r1, s2)"
      by (cases "translateChildren p lang ks s0")
    from 3(1)[OF t[symmetric] Inr c] have "files s2 = files s0" .
    with 3(2) t Inr c f0 show ?thesis by (auto split: sum.splits)
  qed
qed

lemma translateElement_part000_files:
  "translateElement_part000 p element lang s = (r, s1) \<Longrightarrow> files s1 = files s"
  by (auto simp: translateElement_part000_def
      dest: translateChildren_files translateElementText_part000_files
      split: if_splits prod.splits sum.splits)

lemma processElements_part000_files:
  "processElements_part000 p lang ids forest s = (r, s1) \<Longrightarrow> files s1 = files s"
proof (induction ids arbitrary: forest s)
  case Nil
  then show ?case by simp
next
  case (Cons i ids)
  show ?case
  proof (cases "findNode i forest")
    case None
    with Cons show ?thesis by simp
  next
    case (Some element)
    obtain r0 s0 where a: "translateElement_part000 p element lang s = (r0, s0)"
      by (cases "translateElement_part000 p element lang s")
    then have f0: "files s0 = files s" by (rule translateElement_part000_files)
    show ?thesis
    proof (cases r0)
      case (Inl e)
      with Cons.prems Some a f0 show ?thesis by simp
    next
      case (Inr element')
      with Cons.prems Some a
      have "processElements_part000 p lang ids
             (map (updateNode i (\<lambda>_. element')) forest @ detached element element') s0 = (r, s1)"
        by simp
      from Cons.IH[OF this] f0 show ?thesis by simp
    qed
  qed
qed

lemma setMetaLanguage_files: "setMetaLanguage lang doc s = (r, s1) \<Longrightarrow> files s1 = files s"
  by (auto simp: setMetaLanguage_def split: option.splits sum.splits)

lemma setCanonicalLink_part000_files:
  "setCanonicalLink_part000 relativePath lang doc s = (r, s1) \<Longrightarrow> files s1 = files s"
  by (auto simp: setCanonicalLink_part000_def split: option.splits sum.splits)

lemma addAlternates_part000_files:
  "addAlternates_part000 relativePath languages doc s = (r, s1) \<Longrightarrow> files s1 = files s"
  by (auto simp: addAlternates_part000_def split: sum.splits)

lemma translateTitle_files: "translateTitle p lang doc s = (r, s1) \<Longrightarrow> files s1 = files s"
  by (auto simp: translateTitle_def dest: translateText_files'
      split: option.splits sum.splits prod.splits)

lemma translateMetaDescription_part000_files:
  "translateMetaDescription_part000 p lang doc s = (r, s1) \<Longrightarrow> files s1 = files s"
  by (auto simp: translateMetaDescription_part000_def dest: translateText_files'
      split: option.splits sum.splits prod.splits if_splits)

lemma translateElements_part000_files:
  "translateElements_part000 p lang doc s = (r, s1) \<Longrightarrow> files s1 = files s"
  by (auto simp: translateElements_part000_def dest: processElements_part000_files
      split: sum.splits prod.splits)

lemma translateDocument_part000_failure_files:
  assumes "translateDocument_part000 p languages writable content filePath relativePath lang s = (Inl e, s1)"
  shows "files s1 = files s"
proof -
  let ?steps = "[setHtmlLang lang,
              setMetaLanguage lang,
              setCanonicalLink_part000 relativePath lang,
              addAlternates_part000 relativePath languages,
              translateTitle p lang,
              translateMetaDescription_part000 p lang,
              translateElements_part000 p lang]"
  obtain r0 s0 where a: "runSteps ?steps (JSDOM content) s = (r0, s0)"
    by (cases "runSteps ?steps (JSDOM content) s")
  have "files s0 = files s"
  proof (rule runSteps_files[OF _ a])
    show "\<forall>f \<in> set ?steps. \<forall>doc s r s1. f doc s = (r, s1) \<longrightarrow> files s1 = files s"
      by (auto dest: setHtmlLang_files setMetaLanguage_files setCanonicalLink_part000_files
          addAlternates_part000_files translateTitle_files translateMetaDescription_part000_files
          translateElements_part000_files)
  qed
  with assms a show ?thesis
    by (cases r0) (auto simp: translateDocument_part000_def writeOutput_def Let_def split: if_splits)
qed

lemma translateLanguages_part000_append:
  "translateLanguages_part000 p languages writable content filePath relativePath (ls1 @ ls2) s =
   translateLanguages_part000 p languages writable content filePath relativePath ls2
     (translateLanguages_part000 p languages writable content filePath relativePath ls1 s)"
  by (induction ls1 arbitrary: s) (auto split: prod.splits sum.splits)

lemma tagName_updateNode_appendChild [simp]:
  "tagName (updateNode i (appendChild c) n) = tagName n"
  by (cases n) auto

lemma head_appendToHead:
  assumes "head doc \<noteq> None"
  shows "\<exists>d. appendToHead c doc = Inr d \<and> head d \<noteq> None"
proof -
  from assms obtain h where h: "head doc = Some h" by blast
  then obtain j as ks where doc: "doc = Element j ''html'' as ks"
    by (cases doc) (auto simp: head_def split: if_splits)
  from h doc have ne: "filter (\<lambda>k. tagName k = ''head'') ks \<noteq> []"
    by (auto simp: head_def split: list.splits)
  have "head (updateNode (nodeId h) (appendChild c) doc) \<noteq> None"
  proof (cases "nodeId h = j")
    case True
    with doc ne show ?thesis by (auto simp: head_def split: list.splits)
  next
    case False
    have "filter (\<lambda>k. tagName k = ''head'') (map (updateNode (nodeId h) (appendChild c)) ks) =
          map (updateNode (nodeId h) (appendChild c)) (filter (\<lambda>k. tagName k = ''head'') ks)"
      by (simp add: filter_map comp_def)
    with ne have "filter (\<lambda>k. tagName k = ''head'') (map (updateNode (nodeId h) (appendChild c)) ks) \<noteq> []"
      by simp
    with False doc show ?thesis by (auto simp: head_def split: list.splits)
  qed
  with h show ?thesis by (simp add: appendToHead_def)
qed

lemma updateAlternates_ok:
  "head doc \<noteq> None \<Longrightarrow> \<exists>d. updateAlternates relativePath ls doc = Inr d"
proof (induction ls arbitrary: doc)
  case Nil
  then show ?case by simp
next
  case (Cons langObj ls)
  show ?case
  proof (cases "querySelector [(''link'', [(''rel'', ''alternate''), (''hreflang'', code langObj)])] doc")
    case (Some a)
    with Cons show ?thesis by simp
  next
    case None
    from head_appendToHead[OF Cons.prems]
    obtain d where d: "appendToHead
        (alternateLink doc (code langObj) (constructCanonicalUrl relativePath (code langObj))) doc = Inr d"
      "head d \<noteq> None" by blast
    from Cons.IH[OF d(2)] None d(1) show ?thesis by simp
  qed
qed

lemma updateAlternates_part000_ok:
  "head doc \<noteq> None \<Longrightarrow> \<exists>d. updateAlternates_part000 relativePath ls doc = Inr d"
proof (induction ls arbitrary: doc)
  case Nil
  then show ?case by simp
next
  case (Cons langObj ls)
  show ?case
  proof (cases "querySelector [(''link'', [(''rel'', ''alternate''), (''hreflang'', code langObj)])] doc")
    case (Some a)
    with Cons show ?thesis by simp
  next
    case None
    from head_appendToHead[OF Cons.prems]
    obtain d where d: "appendToHead
        (alternateLink doc (code langObj) (''https://evaluating.tools/'' @ code langObj @ ''/'' @ relativePath)) doc = Inr d"
      "head d \<noteq> None" by blast
    from Cons.IH[OF d(2)] None d(1) show ?thesis by simp
  qed
qed

section \<open>The claims about elements and documents\<close>

text \<open>
  Claim C6 at a failing input: an element whose text starts with the copyright sign. The
  test of \<open>index.js\<close> looks for the two code units \<open>0xC2 0xA9\<close>, does not find them, and the
  text goes to the provider and is replaced. The second script leaves the same element
  alone.
\<close>

theorem translateElementText_copyright_translated:
  "translateElementText echoProvider (Element 0 ''p'' [] [TextNode (CHR 0xA9 # '' 2024 Acme'')]) ''fr'' emptyState =
     (Element 0 ''p'' [] [TextNode (''[fr]'' @ CHR 0xA9 # '' 2024 Acme'')],
      emptyState\<lparr>calls := [(CHR 0xA9 # '' 2024 Acme'', ''fr'')],
        cache := [cacheKey ''fr'' (CHR 0xA9 # '' 2024 Acme'') \<mapsto> ''[fr]'' @ CHR 0xA9 # '' 2024 Acme'']\<rparr>) \<and>
   translateElementText_part000 echoProvider (Element 0 ''p'' [] [TextNode (CHR 0xA9 # '' 2024 Acme'')]) ''fr''
       emptyState =
     (Inr (Element 0 ''p'' [] [TextNode (CHR 0xA9 # '' 2024 Acme'')]), emptyState)"
  by (simp add: translateElementText_def translateElementText_part000_def translateText_def
      translate_def cacheKey_def emptyState_def echoProvider_def toLowerCase_def lowerChar_def
      isUpperCase_def brand_def trim_def isWhiteSpace_def startsWith_def)

text \<open>
  Claim C2 at a failing input: the sample page, which has no alternate link, at the root of
  the input folder. The file \<open>index.js\<close> writes has no alternate link at all: the links went
  to the document parsed first, and the file is serialized from another parse. The file the
  second script writes has one alternate link for each locale of the registry, whose
  \<open>href\<close> ends in \<open>/.\<close> and is not the canonical URL.
\<close>

theorem translateHTML_alternate_links:
  "files (snd (translateHTML echoProvider sampleLanguages writableEverywhere samplePage
                 ''en/index.html'' ''.'' emptyState)) =
     [((''fr'', ''.'', ''index.html''),
       HElement ''html'' [(''lang'', ''fr'')]
         [HElement ''head'' []
            [HElement ''title'' [] [HText ''Welcome''],
             HElement ''link'' [(''rel'', ''canonical''), (''href'', ''https://evaluating.tools/fr/'')] []],
          HElement ''body'' []
            [HElement ''a'' [(''href'', ''/fr/about'')] [HText ''[fr]About'']]])] \<and>
   files (snd (translateHTML_part000 echoProvider sampleLanguages writableEverywhere samplePage
                 ''en/index.html'' ''.'' emptyState)) =
     [((''fr'', ''.'', ''index.html''),
       HElement ''html'' [(''lang'', ''fr'')]
         [HElement ''head'' []
            [HElement ''title'' [] [HText ''[fr]Welcome''],
             HElement ''meta'' [(''name'', ''language''), (''content'', ''fr'')] [],
             HElement ''link'' [(''rel'', ''canonical''), (''href'', ''https://evaluating.tools/fr/'')] [],
             HElement ''link'' [(''rel'', ''alternate''), (''hreflang'', ''fr''),
                               (''href'', ''https://evaluating.tools/fr/.'')] [],
             HElement ''link'' [(''rel'', ''alternate''), (''hreflang'', ''en''),
                               (''href'', ''https://evaluating.tools/en/.'')] []],
          HElement ''body'' []
            [HElement ''a'' [(''href'', ''/fr/about'')] [HText ''[fr]About'']]])] \<and>
   constructCanonicalUrl ''.'' ''fr'' = ''https://evaluating.tools/fr/''"
  by code_simp

text \<open>
  Claim C8. For a document the parser has given a \<open>head\<close>, \<open>translateHTML\<close> is fulfilled
  whatever the provider and the file system do, in either script. Whenever the
  transformation for a locale of the registry throws, in the state the locales before it
  have left, no file has been written for that locale, one error line is printed, and the
  run ends in the state the loop reaches by going on with the locales after it.
\<close>

theorem locale_failure_caught:
  assumes "head (JSDOM content) \<noteq> None"
  shows "fst (translateHTML p languages writable content filePath relativePath s) = Inr () \<and>
     (\<forall>ls1 langObj ls2 e s1.
        languages = ls1 @ langObj # ls2 \<and> createnew langObj \<and>
        translateDocument p writable content filePath relativePath (code langObj)
          (translateLanguages p writable content filePath relativePath ls1 s) = (Inl e, s1) \<longrightarrow>
        files s1 = files (translateLanguages p writable content filePath relativePath ls1 s) \<and>
        snd (translateHTML p languages writable content filePath relativePath s) =
          translateLanguages p writable content filePath relativePath ls2
            (s1\<lparr>log := log s1 @ [ErrorProcessingFile filePath (code langObj)]\<rparr>)) \<and>
     fst (translateHTML_part000 p languages writable content filePath relativePath s) = Inr () \<and>
     (\<forall>ls1 langObj ls2 e s1.
        languages = ls1 @ langObj # ls2 \<and> createnew langObj \<and>
        translateDocument_part000 p languages writable content filePath relativePath (code langObj)
          (translateLanguages_part000 p languages writable content filePath relativePath ls1 s) = (Inl e, s1) \<longrightarrow>
        files s1 = files (translateLanguages_part000 p languages writable content filePath relativePath ls1 s) \<and>
        snd (translateHTML_part000 p languages writable content filePath relativePath s) =
          translateLanguages_part000 p languages writable content filePath relativePath ls2
            (s1\<lparr>log := log s1 @ [ErrorProcessingFile filePath (code langObj)]\<rparr>))"
proof -
  from updateAlternates_ok[OF assms] obtain d
    where d: "updateAlternates relativePath languages (JSDOM content) = Inr d" by blast
  then have t: "translateHTML p languages writable content filePath relativePath s =
      (Inr (), translateLanguages p writable content filePath relativePath languages s)"
    by (simp add: translateHTML_def)
  from updateAlternates_part000_ok[OF assms] obtain d'
    where d': "updateAlternates_part000 relativePath languages (JSDOM content) = Inr d'" by blast
  then have t': "translateHTML_part000 p languages writable content filePath relativePath s =
      (Inr (), translateLanguages_part000 p languages writable content filePath relativePath languages s)"
    by (simp add: translateHTML_part000_def)
  have a: "files s1 = files (translateLanguages p writable content filePath relativePath ls1 s) \<and>
        snd (translateHTML p languages writable content filePath relativePath s) =
          translateLanguages p writable content filePath relativePath ls2
            (s1\<lparr>log := log s1 @ [ErrorProcessingFile filePath (code langObj)]\<rparr>)"
    if "languages = ls1 @ langObj # ls2" "createnew langObj"
      "translateDocument p writable content filePath relativePath (code langObj)
          (translateLanguages p writable content filePath relativePath ls1 s) = (Inl e, s1)"
    for ls1 langObj ls2 e s1
  proof -
    have "files s1 = files (translateLanguages p writable content filePath relativePath ls1 s)"
      using that(3) by (rule translateDocument_failure_files)
    moreover have "translateLanguages p writable content filePath relativePath
        (ls1 @ langObj # ls2) s =
          translateLanguages p writable content filePath relativePath ls2
            (s1\<lparr>log := log s1 @ [ErrorProcessingFile filePath (code langObj)]\<rparr>)"
      using that(2,3) by (simp add: translateLanguages_append)
    ultimately show ?thesis using t that(1) by simp
  qed
  have b: "files s1 = files (translateLanguages_part000 p languages writable content filePath relativePath ls1 s) \<and>
        snd (translateHTML_part000 p languages writable content filePath relativePath s) =
          translateLanguages_part000 p languages writable content filePath relativePath ls2
            (s1\<lparr>log := log s1 @ [ErrorProcessingFile filePath (code langObj)]\<rparr>)"
    if "languages = ls1 @ langObj # ls2" "createnew langObj"
      "translateDocument_part000 p languages writable content filePath relativePath (code langObj)
          (translateLanguages_part000 p languages writable content filePath relativePath ls1 s) = (Inl e, s1)"
    for ls1 langObj ls2 e s1
  proof -
    have "files s1 = files (translateLanguages_part000 p languages writable content filePath relativePath ls1 s)"
      using that(3) by (rule translateDocument_part000_failure_files)
    moreover have "translateLanguages_part000 p languages writable content filePath relativePath
        (ls1 @ langObj # ls2) s =
          translateLanguages_part000 p languages writable content filePath relativePath ls2
            (s1\<lparr>log := log s1 @ [ErrorProcessingFile filePath (code langObj)]\<rparr>)"
      using that(2,3) by (simp add: translateLanguages_part000_append)
    ultimately show ?thesis using t' that(1) by simp
  qed
  from t t' a b show ?thesis by (simp (no_asm_simp)) blast
qed

text \<open>
  Claim C8 on the page with the brand token and a provider that fails: in both scripts the
  transformation throws for the first locale and for the second, \<open>translateHTML\<close> is
  fulfilled, both errors are printed and no file is written.
\<close>

theorem locale_failure_caught_witness:
  "head (JSDOM brandPage) \<noteq> None \<and>
   fst (translateDocument failingProvider writableEverywhere brandPage ''en/index.html'' ''.'' ''fr''
          emptyState) = Inl ProviderError \<and>
   fst (translateHTML failingProvider twoLanguages writableEverywhere brandPage ''en/index.html'' ''.''
          emptyState) = Inr () \<and>
   log (snd (translateHTML failingProvider twoLanguages writableEverywhere brandPage ''en/index.html''
          ''.'' emptyState)) =
     [ErrorProcessingFile ''en/index.html'' ''fr'', ErrorProcessingFile ''en/index.html'' ''de''] \<and>
   files (snd (translateHTML failingProvider twoLanguages writableEverywhere brandPage ''en/index.html''
          ''.'' emptyState)) = [] \<and>
   fst (translateDocument_part000 failingProvider twoLanguages writableEverywhere brandPage
          ''en/index.html'' ''.'' ''fr'' emptyState) = Inl ProviderError \<and>
   fst (translateHTML_part000 failingProvider twoLanguages writableEverywhere brandPage ''en/index.html''
          ''.'' emptyState) = Inr () \<and>
   log (snd (translateHTML_part000 failingProvider twoLanguages writableEverywhere brandPage
          ''en/index.html'' ''.'' emptyState)) =
     [ErrorProcessingFile ''en/index.html'' ''fr'', ErrorProcessingFile ''en/index.html'' ''de''] \<and>
   files (snd (translateHTML_part000 failingProvider twoLanguages writableEverywhere brandPage
          ''en/index.html'' ''.'' emptyState)) = []"
proof -
  let ?fr = "\<lparr>code = ''fr'', createnew = True\<rparr>"
  let ?de = "\<lparr>code = ''de'', createnew = True\<rparr>"
  let ?D = "translateDocument failingProvider writableEverywhere brandPage ''en/index.html'' ''.'' ''fr''
          emptyState"
  let ?D' = "translateDocument_part000 failingProvider twoLanguages writableEverywhere brandPage
          ''en/index.html'' ''.'' ''fr'' emptyState"
  have h: "head (JSDOM brandPage) \<noteq> None" by code_simp
  have two: "twoLanguages = [] @ ?fr # [?de]" by (simp add: twoLanguages_def)
  have cn: "createnew ?fr" by simp
  have f: "fst ?D = Inl ProviderError" by code_simp
  have f': "fst ?D' = Inl ProviderError" by code_simp
  have d: "translateDocument failingProvider writableEverywhere brandPage ''en/index.html'' ''.''
        (code ?fr)
        (translateLanguages failingProvider writableEverywhere brandPage ''en/index.html'' ''.'' []
           emptyState) = (Inl ProviderError, snd ?D)"
    using f by (simp add: prod_eq_iff)
  have d': "translateDocument_part000 failingProvider twoLanguages writableEverywhere brandPage
        ''en/index.html'' ''.'' (code ?fr)
        (translateLanguages_part000 failingProvider twoLanguages writableEverywhere brandPage
           ''en/index.html'' ''.'' [] emptyState) = (Inl ProviderError, snd ?D')"
    using f' by (simp add: prod_eq_iff)
  note inst = locale_failure_caught[OF h, of failingProvider twoLanguages writableEverywhere
      "''en/index.html''" "''.''" emptyState]
  from inst have r1: "fst (translateHTML failingProvider twoLanguages writableEverywhere brandPage
      ''en/index.html'' ''.'' emptyState) = Inr ()" by blast
  from inst have r1': "fst (translateHTML_part000 failingProvider twoLanguages writableEverywhere brandPage
      ''en/index.html'' ''.'' emptyState) = Inr ()" by blast
  from inst two cn d
  have r2: "snd (translateHTML failingProvider twoLanguages writableEverywhere brandPage
      ''en/index.html'' ''.'' emptyState) =
      translateLanguages failingProvider writableEverywhere brandPage ''en/index.html'' ''.'' [?de]
        ((snd ?D)\<lparr>log := log (snd ?D) @ [ErrorProcessingFile ''en/index.html'' (code ?fr)]\<rparr>)"
    by blast
  from inst two cn d'
  have r2': "snd (translateHTML_part000 failingProvider twoLanguages writableEverywhere brandPage
      ''en/index.html'' ''.'' emptyState) =
      translateLanguages_part000 failingProvider twoLanguages writableEverywhere brandPage
        ''en/index.html'' ''.'' [?de]
        ((snd ?D')\<lparr>log := log (snd ?D') @ [ErrorProcessingFile ''en/index.html'' (code ?fr)]\<rparr>)"
    by blast
  have l: "log (translateLanguages failingProvider writableEverywhere brandPage ''en/index.html'' ''.'' [?de]
        ((snd ?D)\<lparr>log := log (snd ?D) @ [ErrorProcessingFile ''en/index.html'' (code ?fr)]\<rparr>)) =
     [ErrorProcessingFile ''en/index.html'' ''fr'', ErrorProcessingFile ''en/index.html'' ''de'']"
    by code_simp
  have fl: "files (translateLanguages failingProvider writableEverywhere brandPage ''en/index.html'' ''.'' [?de]
        ((snd ?D)\<lparr>log := log (snd ?D) @ [ErrorProcessingFile ''en/index.html'' (code ?fr)]\<rparr>)) = []"
    by code_simp
  have l': "log (translateLanguages_part000 failingProvider twoLanguages writableEverywhere brandPage
        ''en/index.html'' ''.'' [?de]
        ((snd ?D')\<lparr>log := log (snd ?D') @ [ErrorProcessingFile ''en/index.html'' (code ?fr)]\<rparr>)) =
     [ErrorProcessingFile ''en/index.html'' ''fr'', ErrorProcessingFile ''en/index.html'' ''de'']"
    by code_simp
  have fl': "files (translateLanguages_part000 failingProvider twoLanguages writableEverywhere brandPage
        ''en/index.html'' ''.'' [?de]
        ((snd ?D')\<lparr>log := log (snd ?D') @ [ErrorProcessingFile ''en/index.html'' (code ?fr)]\<rparr>)) = []"
    by code_simp
  from h f f' r1 r1' l fl l' fl' show ?thesis unfolding r2 r2' by blast
qed

end
